theory Spec2Isabelle
  imports Complex_Main "HOL-Library.Sublist"
begin

section \<open>JavaScript values\<close>

text \<open>
  The request body and the documents fetched from a node are parsed JSON, so their fields
  are dynamically typed. \<open>JUndefined\<close> is what reading a missing property gives.
  Numbers are integers here (JSON numbers with a fraction are not covered), and JSON
  arrays are not covered. An object is the list of its properties.
\<close>

datatype jsval =
    JUndefined
  | JNull
  | JBool bool
  | JNum int
  | JStr string
  | JObj "(string \<times> jsval) list"

text \<open>Truthiness, as \<open>if (v)\<close>, \<open>!v\<close>, \<open>a || b\<close> and \<open>c ? x : y\<close> test it.\<close>

fun truthy :: "jsval \<Rightarrow> bool" where
  "truthy JUndefined = False"
| "truthy JNull = False"
| "truthy (JBool b) = b"
| "truthy (JNum n) = (n \<noteq> 0)"
| "truthy (JStr s) = (s \<noteq> [])"
| "truthy (JObj kvs) = True"

text \<open>\<open>v == null\<close>: the value is \<open>null\<close> or \<open>undefined\<close>.\<close>

fun nullish :: "jsval \<Rightarrow> bool" where
  "nullish JUndefined = True"
| "nullish JNull = True"
| "nullish v = False"

text \<open>\<open>a || b\<close> and \<open>a ?? b\<close>.\<close>

definition or_else :: "jsval \<Rightarrow> jsval \<Rightarrow> jsval" where
  "or_else a b = (if truthy a then a else b)"

definition coalesce :: "jsval \<Rightarrow> jsval \<Rightarrow> jsval" where
  "coalesce a b = (if nullish a then b else a)"

text \<open>
  \<open>o?.k\<close>: \<open>undefined\<close> on \<open>null\<close> and \<open>undefined\<close>, the property of an object, and
  \<open>undefined\<close> on a boolean, a number or a string (none of the keys read by the
  program is a property of those). \<open>o.k\<close> is the same wherever the program uses it,
  because it reads \<open>o.k\<close> only after checking that \<open>o\<close> is not nullish.
\<close>

fun js_get :: "jsval \<Rightarrow> string \<Rightarrow> jsval" where
  "js_get (JObj kvs) k = (case map_of kvs k of None \<Rightarrow> JUndefined | Some v \<Rightarrow> v)"
| "js_get v k = JUndefined"

section \<open>Strings\<close>

text \<open>\<open>s.includes(p)\<close> and \<open>s.startsWith(p)\<close>.\<close>

fun js_includes :: "string \<Rightarrow> string \<Rightarrow> bool" where
  "js_includes p [] = (p = [])"
| "js_includes p (c # cs) = (prefix p (c # cs) \<or> js_includes p cs)"

definition startsWith :: "string \<Rightarrow> string \<Rightarrow> bool" where
  "startsWith s p = prefix p s"

text \<open>\<open>s.replace(p, r)\<close> with a string pattern: the first occurrence only.\<close>

fun replace_first :: "string \<Rightarrow> string \<Rightarrow> string \<Rightarrow> string" where
  "replace_first p r [] = (if p = [] then r else [])"
| "replace_first p r (c # cs) =
     (if prefix p (c # cs) then r @ drop (length p) (c # cs)
      else c # replace_first p r cs)"

text \<open>
  \<open>domain.replace(/^https?:\/\//, "").replace(/\/$/, "")\<close>: one leading scheme
  and one trailing slash are removed.
\<close>

definition strip_scheme :: "string \<Rightarrow> string" where
  "strip_scheme s =
     (if prefix ''https://'' s then drop 8 s
      else if prefix ''http://'' s then drop 7 s
      else s)"

definition strip_slash :: "string \<Rightarrow> string" where
  "strip_slash s = (if s \<noteq> [] \<and> last s = CHR ''/'' then butlast s else s)"

definition cleanDomain :: "string \<Rightarrow> string" where
  "cleanDomain d = strip_slash (strip_scheme d)"

section \<open>The nodes table\<close>

text \<open>
  One row of \<open>nodes\<close>. Timestamps (\<open>datetime('now')\<close>, UTC with a resolution of
  one second) are seconds since the epoch; \<open>NULL\<close> in a nullable column is \<open>None\<close>.
  The table is the list of its rows in insertion order.
\<close>

record node =
  id' :: string
  domain :: string
  name :: string
  description :: string
  version :: string
  track_count :: int
  user_count :: int
  open_registration :: int
  p2p_enabled :: int
  p2p_node_id :: "string option"
  country :: "string option"
  token :: string
  first_seen :: int
  last_seen :: int
  last_healthy :: int
  is_online :: int
  down_since :: "int option"

type_synonym store = "node list"

text \<open>What JavaScript reads from a nullable text column of a selected row.\<close>

fun js_text_opt :: "string option \<Rightarrow> jsval" where
  "js_text_opt None = JNull"
| "js_text_opt (Some s) = JStr s"

subsection \<open>Binding statement parameters\<close>

text \<open>
  What a statement can raise. \<open>BindError\<close>: better-sqlite3 binds numbers, strings and
  \<open>null\<close> and throws on any other argument (a boolean or an object among them).
  \<open>ConstraintError\<close>: SQLite rejects the row (\<open>NOT NULL\<close>, \<open>UNIQUE\<close>,
  \<open>PRIMARY KEY\<close>). \<open>Unsupported\<close> is no exception of the program: it marks
  a number bound to a \<open>TEXT\<close> column or a string bound to an \<open>INTEGER\<close> column,
  which SQLite stores after a conversion by column affinity that is not covered here.
  (\<open>undefined\<close> is bound like \<open>null\<close>; the program never binds it, since each of its
  arguments ends in a default or in \<open>null\<close>.)
\<close>

datatype exn = BindError | ConstraintError | Unsupported

fun bindable :: "jsval \<Rightarrow> bool" where
  "bindable (JBool b) = False"
| "bindable (JObj kvs) = False"
| "bindable v = True"

fun text_col :: "jsval \<Rightarrow> exn + string" where
  "text_col (JStr s) = Inr s"
| "text_col (JNum n) = Inl Unsupported"
| "text_col JNull = Inl ConstraintError"
| "text_col JUndefined = Inl ConstraintError"
| "text_col v = Inl BindError"

fun int_col :: "jsval \<Rightarrow> exn + int" where
  "int_col (JNum n) = Inr n"
| "int_col (JStr s) = Inl Unsupported"
| "int_col JNull = Inl ConstraintError"
| "int_col JUndefined = Inl ConstraintError"
| "int_col v = Inl BindError"

fun text_null_col :: "jsval \<Rightarrow> exn + string option" where
  "text_null_col (JStr s) = Inr (Some s)"
| "text_null_col (JNum n) = Inl Unsupported"
| "text_null_col JNull = Inr None"
| "text_null_col JUndefined = Inr None"
| "text_null_col v = Inl BindError"

fun int_null_col :: "jsval \<Rightarrow> exn + int option" where
  "int_null_col (JNum n) = Inr (Some n)"
| "int_null_col (JStr s) = Inl Unsupported"
| "int_null_col JNull = Inr None"
| "int_null_col JUndefined = Inr None"
| "int_null_col v = Inl BindError"

text \<open>Sequencing of steps that may raise.\<close>

fun and_then :: "exn + 'a \<Rightarrow> ('a \<Rightarrow> exn + 'b) \<Rightarrow> exn + 'b" where
  "and_then (Inl e) f = Inl e"
| "and_then (Inr x) f = f x"

text \<open>
  The arguments of a statement are all bound before it runs, so an argument that cannot
  be bound raises whatever the others are.
\<close>

definition bind_all :: "jsval list \<Rightarrow> exn + unit" where
  "bind_all args = (if list_all bindable args then Inr () else Inl BindError)"

subsection \<open>Queries\<close>

text \<open>
  \<open>SELECT * FROM nodes WHERE token = ?\<close> with \<open>.get(token)\<close>: the first matching
  row, or nothing.
\<close>

definition select_by_token :: "jsval \<Rightarrow> store \<Rightarrow> exn + node option" where
  "select_by_token tok st =
     and_then (bind_all [tok]) (\<lambda>_.
     and_then (text_null_col tok) (\<lambda>t.
       Inr (find (\<lambda>n. Some (token n) = t) st)))"

definition select_by_domain :: "string \<Rightarrow> store \<Rightarrow> node option" where
  "select_by_domain d st = find (\<lambda>n. domain n = d) st"

text \<open>The \<open>UPDATE\<close> of a heartbeat, with its nine arguments in order.\<close>

definition updateStmt ::
  "int \<Rightarrow> jsval \<Rightarrow> jsval \<Rightarrow> jsval \<Rightarrow> jsval \<Rightarrow> jsval \<Rightarrow> jsval \<Rightarrow> jsval \<Rightarrow> jsval \<Rightarrow> jsval
     \<Rightarrow> store \<Rightarrow> exn + store" where
  "updateStmt now a1 a2 a3 a4 a5 a6 a7 a8 a9 st =
     and_then (bind_all [a1, a2, a3, a4, a5, a6, a7, a8, a9]) (\<lambda>_.
     and_then (text_col a1) (\<lambda>v1.
     and_then (text_col a2) (\<lambda>v2.
     and_then (text_col a3) (\<lambda>v3.
     and_then (int_col a4) (\<lambda>v4.
     and_then (int_col a5) (\<lambda>v5.
     and_then (int_col a6) (\<lambda>v6.
     and_then (int_col a7) (\<lambda>v7.
     and_then (text_null_col a8) (\<lambda>v8.
     and_then (text_null_col a9) (\<lambda>t.
       Inr (map (\<lambda>m. if Some (token m) = t
                       then m\<lparr>name := v1, description := v2, version := v3,
                              track_count := v4, user_count := v5,
                              open_registration := v6, p2p_enabled := v7,
                              p2p_node_id := v8, last_seen := now,
                              last_healthy := now, is_online := 1,
                              down_since := None\<rparr>
                       else m) st)))))))))))"

text \<open>
  The \<open>INSERT\<close> of a registration, with its eleven arguments in order. The columns
  it does not name take their defaults. \<open>id\<close>, \<open>domain\<close> and \<open>token\<close> are unique.
\<close>

definition insertStmt ::
  "int \<Rightarrow> jsval \<Rightarrow> jsval \<Rightarrow> jsval \<Rightarrow> jsval \<Rightarrow> jsval \<Rightarrow> jsval \<Rightarrow> jsval \<Rightarrow> jsval \<Rightarrow> jsval
     \<Rightarrow> jsval \<Rightarrow> jsval \<Rightarrow> store \<Rightarrow> exn + store" where
  "insertStmt now a1 a2 a3 a4 a5 a6 a7 a8 a9 a10 a11 st =
     and_then (bind_all [a1, a2, a3, a4, a5, a6, a7, a8, a9, a10, a11]) (\<lambda>_.
     and_then (text_col a1) (\<lambda>v1.
     and_then (text_col a2) (\<lambda>v2.
     and_then (text_col a3) (\<lambda>v3.
     and_then (text_col a4) (\<lambda>v4.
     and_then (text_col a5) (\<lambda>v5.
     and_then (int_col a6) (\<lambda>v6.
     and_then (int_col a7) (\<lambda>v7.
     and_then (int_col a8) (\<lambda>v8.
     and_then (int_col a9) (\<lambda>v9.
     and_then (text_null_col a10) (\<lambda>v10.
     and_then (text_col a11) (\<lambda>v11.
       if list_ex (\<lambda>m. id' m = v1 \<or> domain m = v2 \<or> token m = v11) st
       then Inl ConstraintError
       else Inr (st @ [\<lparr>id' = v1, domain = v2, name = v3, description = v4,
                        version = v5, track_count = v6, user_count = v7,
                        open_registration = v8, p2p_enabled = v9,
                        p2p_node_id = v10, country = None, token = v11,
                        first_seen = now, last_seen = now, last_healthy = now,
                        is_online = 1, down_since = None\<rparr>])))))))))))))"

text \<open>\<open>DELETE FROM nodes WHERE id = ?\<close>.\<close>

definition delete_by_id :: "string \<Rightarrow> store \<Rightarrow> store" where
  "delete_by_id i st = filter (\<lambda>m. id' m \<noteq> i) st"

section \<open>The outside world\<close>

text \<open>
  What \<open>await fetch(url, ...)\<close> does: it rejects (network error, or the abort after
  8 seconds), or it resolves to a response with its \<open>ok\<close> flag (status 2xx) and what
  \<open>res.json()\<close> gives: the parsed body, or \<open>None\<close> when parsing rejects.
\<close>

datatype fetch_result = Rejects | Response bool "jsval option"

text \<open>
  The environment of one request or of one record of a sweep: the network, the
  clock (\<open>Date.now()\<close>, in milliseconds) and the values that \<open>generateToken()\<close> and
  \<open>generateId()\<close> return.
\<close>

record env =
  fetch :: "string \<Rightarrow> fetch_result"
  now_ms :: int
  generateToken :: string
  generateId :: string

text \<open>\<open>datetime('now')\<close>.\<close>

definition datetime_now :: "env \<Rightarrow> int" where
  "datetime_now e = now_ms e div 1000"

section \<open>Probes\<close>

text \<open>How the body of a \<open>try\<close> block inside a loop ends.\<close>

datatype 'a outcome = Thrown | Return 'a | Next

definition protocols :: "string \<Rightarrow> string list" where
  "protocols d =
     (if startsWith d ''localhost'' \<or> js_includes ''127.0.0.1'' d
      then [''http''] else [''https'', ''http''])"

fun health_try :: "fetch_result \<Rightarrow> bool outcome" where
  "health_try Rejects = Thrown"
| "health_try (Response ok json) =
     (if ok then
        (let body = (case json of None \<Rightarrow> JNull | Some v \<Rightarrow> v) in
         if truthy body \<and> js_get body ''status'' = JStr ''ok'' then Return True
         else Next)
      else Next)"

text \<open>
  The loop over the protocols, with the URLs it requests, in order. A thrown exception
  is caught and the next protocol is tried.
\<close>

fun health_loop :: "env \<Rightarrow> string \<Rightarrow> string list \<Rightarrow> bool \<times> string list" where
  "health_loop e d [] = (False, [])"
| "health_loop e d (proto # ps) =
     (let url = proto @ ''://'' @ d @ ''/healthz'' in
      case health_try (fetch e url) of
        Return b \<Rightarrow> (b, [url])
      | Thrown \<Rightarrow> (let r = health_loop e d ps in (fst r, url # snd r))
      | Next \<Rightarrow> (let r = health_loop e d ps in (fst r, url # snd r)))"

definition checkNodeHealth_trace :: "env \<Rightarrow> string \<Rightarrow> bool \<times> string list" where
  "checkNodeHealth_trace e d = health_loop e d (protocols d)"

definition checkNodeHealth :: "env \<Rightarrow> string \<Rightarrow> bool" where
  "checkNodeHealth e d = fst (checkNodeHealth_trace e d)"

fun info_try :: "fetch_result \<Rightarrow> jsval outcome" where
  "info_try Rejects = Thrown"
| "info_try (Response ok json) =
     (if ok then (case json of None \<Rightarrow> Thrown | Some v \<Rightarrow> Return v) else Next)"

fun info_loop :: "env \<Rightarrow> string \<Rightarrow> string list \<Rightarrow> jsval \<times> string list" where
  "info_loop e d [] = (JNull, [])"
| "info_loop e d (proto # ps) =
     (let url = proto @ ''://'' @ d @ ''/api/nodeinfo'' in
      case info_try (fetch e url) of
        Return v \<Rightarrow> (v, [url])
      | Thrown \<Rightarrow> (let r = info_loop e d ps in (fst r, url # snd r))
      | Next \<Rightarrow> (let r = info_loop e d ps in (fst r, url # snd r)))"

definition fetchNodeInfo_trace :: "env \<Rightarrow> string \<Rightarrow> jsval \<times> string list" where
  "fetchNodeInfo_trace e d = info_loop e d (protocols d)"

definition fetchNodeInfo :: "env \<Rightarrow> string \<Rightarrow> jsval" where
  "fetchNodeInfo e d = fst (fetchNodeInfo_trace e d)"

section \<open>API routes\<close>

text \<open>A response: the HTTP status and the JSON body.\<close>

type_synonym response = "nat \<times> jsval"

text \<open>
  Stands for the response to a request whose effect depends on a column affinity
  conversion (see \<open>Unsupported\<close>); no theorem below is about such a request.
\<close>

definition out_of_model :: response where
  "out_of_model = (0, JUndefined)"

subsection \<open>POST /api/announce\<close>

text \<open>The heartbeat branch, inside the \<open>try\<close> block.\<close>

definition heartbeat ::
  "env \<Rightarrow> string \<Rightarrow> jsval \<Rightarrow> jsval \<Rightarrow> jsval \<Rightarrow> jsval \<Rightarrow> store
     \<Rightarrow> exn + response \<times> store" where
  "heartbeat e cd r_name r_description r_version r_token st =
     and_then (select_by_token r_token st) (\<lambda>found.
       case found of
         None \<Rightarrow> Inr ((401, JObj [(''error'', JStr ''invalid token'')]), st)
       | Some node \<Rightarrow>
           if domain node \<noteq> cd
           then Inr ((403, JObj [(''error'', JStr ''token does not match domain'')]), st)
           else
             (let info = fetchNodeInfo e cd in
              and_then
                (updateStmt (datetime_now e)
                   (or_else (or_else (or_else r_name (js_get info ''name''))
                      (JStr (name node))) (JStr []))
                   (or_else (or_else (or_else r_description (js_get info ''description''))
                      (JStr (description node))) (JStr []))
                   (or_else (or_else (or_else r_version (js_get info ''version''))
                      (JStr (version node))) (JStr []))
                   (coalesce (coalesce (js_get info ''track_count'')
                      (JNum (track_count node))) (JNum 0))
                   (coalesce (coalesce (js_get info ''user_count'')
                      (JNum (user_count node))) (JNum 0))
                   (coalesce (coalesce (js_get info ''open_registration'')
                      (JNum (open_registration node))) (JNum 1))
                   (JNum (if truthy (js_get info ''p2p_enabled'') then 1 else 0))
                   (or_else (or_else (js_get info ''p2p_node_id'')
                      (js_text_opt (p2p_node_id node))) JNull)
                   r_token st)
                (\<lambda>st'. Inr ((200, JObj [(''status'', JStr ''updated''),
                                          (''id'', JStr (id' node)),
                                          (''domain'', JStr cd)]), st'))))"

text \<open>The registration branch, inside the \<open>try\<close> block.\<close>

definition register ::
  "env \<Rightarrow> string \<Rightarrow> jsval \<Rightarrow> jsval \<Rightarrow> jsval \<Rightarrow> store \<Rightarrow> exn + response \<times> store" where
  "register e cd r_name r_description r_version st =
     (case select_by_domain cd st of
        Some existing \<Rightarrow>
          Inr ((409, JObj [(''error'', JStr ''domain already registered''),
                 (''hint'', JStr ''Include the token from your initial registration to update.'')]),
               st)
      | None \<Rightarrow>
          if \<not> checkNodeHealth e cd
          then Inr ((422, JObj [(''error'', JStr ''node is not reachable''),
                 (''hint'', JStr (''Could not reach '' @ cd @
                    ''. Ensure your instance is online and accessible.''))]), st)
          else
            (let info = fetchNodeInfo e cd;
                 newToken = generateToken e;
                 new_id = generateId e in
             and_then
               (insertStmt (datetime_now e)
                  (JStr new_id)
                  (JStr cd)
                  (or_else (or_else r_name (js_get info ''name'')) (JStr []))
                  (or_else (or_else r_description (js_get info ''description'')) (JStr []))
                  (or_else (or_else r_version (js_get info ''version'')) (JStr []))
                  (coalesce (js_get info ''track_count'') (JNum 0))
                  (coalesce (js_get info ''user_count'') (JNum 0))
                  (coalesce (js_get info ''open_registration'') (JNum 1))
                  (JNum (if truthy (js_get info ''p2p_enabled'') then 1 else 0))
                  (or_else (js_get info ''p2p_node_id'') JNull)
                  (JStr newToken) st)
               (\<lambda>st'. Inr ((201, JObj [(''status'', JStr ''registered''),
                    (''id'', JStr new_id),
                    (''domain'', JStr cd),
                    (''token'', JStr newToken),
                    (''message'', JStr ''Save this token! You need it for future heartbeats and to remove your node.'')]),
                  st'))))"

text \<open>
  The handler, for \<open>req.body\<close> as \<open>express.json()\<close> parsed it. An exception raised in
  the \<open>try\<close> block is answered with 500; the statement that raised has written nothing.
\<close>

definition announce :: "env \<Rightarrow> jsval \<Rightarrow> store \<Rightarrow> response \<times> store" where
  "announce e body st =
     (let r_domain = js_get body ''domain'';
          r_name = js_get body ''name'';
          r_description = js_get body ''description'';
          r_version = js_get body ''version'';
          r_token = js_get body ''token'' in
      case r_domain of
        JStr d \<Rightarrow>
          if d = [] then ((400, JObj [(''error'', JStr ''domain is required'')]), st)
          else
            (let cd = cleanDomain d in
             case (if truthy r_token
                   then heartbeat e cd r_name r_description r_version r_token st
                   else register e cd r_name r_description r_version st) of
               Inr res \<Rightarrow> res
             | Inl Unsupported \<Rightarrow> (out_of_model, st)
             | Inl err \<Rightarrow> ((500, JObj [(''error'', JStr ''internal server error'')]), st))
      | _ \<Rightarrow> ((400, JObj [(''error'', JStr ''domain is required'')]), st))"

subsection \<open>DELETE /api/nodes/:domain\<close>

text \<open>The \<open>Authorization\<close> header is a string when the request has one.\<close>

definition delete_node :: "string option \<Rightarrow> string \<Rightarrow> store \<Rightarrow> response \<times> store" where
  "delete_node authorization domain_param st =
     (let r_token = (case authorization of
                       None \<Rightarrow> JUndefined
                     | Some h \<Rightarrow> JStr (replace_first ''Bearer '' [] h)) in
      if \<not> truthy r_token then ((401, JObj [(''error'', JStr ''token required'')]), st)
      else
        (let cd = cleanDomain domain_param in
         case find (\<lambda>n. domain n = cd \<and> JStr (token n) = r_token) st of
           None \<Rightarrow> ((404, JObj [(''error'', JStr ''node not found or invalid token'')]), st)
         | Some node \<Rightarrow>
             ((200, JObj [(''status'', JStr ''removed''), (''domain'', JStr cd)]),
              delete_by_id (id' node) st)))"

subsection \<open>GET /api/nodes/:domain\<close>

text \<open>The selected columns do not include \<open>token\<close>; \<open>!!\<close> turns a flag into a boolean.\<close>

definition js_time_opt :: "int option \<Rightarrow> jsval" where
  "js_time_opt t = (case t of None \<Rightarrow> JNull | Some x \<Rightarrow> JNum x)"

definition get_node :: "string \<Rightarrow> store \<Rightarrow> response" where
  "get_node domain_param st =
     (case select_by_domain (cleanDomain domain_param) st of
        None \<Rightarrow> (404, JObj [(''error'', JStr ''node not found'')])
      | Some node \<Rightarrow>
          (200, JObj [(''id'', JStr (id' node)),
                      (''domain'', JStr (domain node)),
                      (''name'', JStr (name node)),
                      (''description'', JStr (description node)),
                      (''version'', JStr (version node)),
                      (''track_count'', JNum (track_count node)),
                      (''user_count'', JNum (user_count node)),
                      (''open_registration'', JBool (open_registration node \<noteq> 0)),
                      (''p2p_enabled'', JBool (p2p_enabled node \<noteq> 0)),
                      (''p2p_node_id'', js_text_opt (p2p_node_id node)),
                      (''country'', js_text_opt (country node)),
                      (''first_seen'', JNum (first_seen node)),
                      (''last_seen'', JNum (last_seen node)),
                      (''last_healthy'', JNum (last_healthy node)),
                      (''is_online'', JBool (is_online node \<noteq> 0)),
                      (''down_since'', js_time_opt (down_since node))]))"

subsection \<open>GET /api/stats\<close>

text \<open>
  \<open>SUM\<close> over no rows is \<open>NULL\<close>; the summed columns are \<open>NOT NULL\<close>. The sum is
  taken in unbounded integers: a sum that leaves the 64-bit range, on which SQLite
  raises, is not covered.
\<close>

definition sql_sum :: "int list \<Rightarrow> jsval" where
  "sql_sum xs = (if xs = [] then JNull else JNum (sum_list xs))"

definition get_stats :: "store \<Rightarrow> response" where
  "get_stats st =
     (200, JObj [(''total_nodes'', JNum (int (length st))),
                 (''online_nodes'', sql_sum (map (\<lambda>n. if is_online n = 1 then 1 else 0) st)),
                 (''total_tracks'', sql_sum (map track_count st)),
                 (''total_users'', sql_sum (map user_count st))])"

section \<open>Health checker\<close>

definition REMOVAL_THRESHOLD_HOURS :: rat where
  "REMOVAL_THRESHOLD_HOURS = 48"

text \<open>
  \<open>(Date.now() - new Date(node.down_since + "Z").getTime()) / (1000 * 60 * 60)\<close>,
  for a stored timestamp \<open>ds\<close>, which is a whole number of seconds.
\<close>

definition hoursDown :: "env \<Rightarrow> int \<Rightarrow> rat" where
  "hoursDown e ds = of_int (now_ms e - ds * 1000) / (1000 * 60 * 60)"

text \<open>\<open>COALESCE(?, column)\<close>.\<close>

fun coalesce_col :: "'a option \<Rightarrow> 'a \<Rightarrow> 'a" where
  "coalesce_col None old = old"
| "coalesce_col (Some v) old = v"

text \<open>The \<open>UPDATE\<close> of a record found healthy, with its eight arguments in order.\<close>

definition refreshStmt ::
  "int \<Rightarrow> jsval \<Rightarrow> jsval \<Rightarrow> jsval \<Rightarrow> jsval \<Rightarrow> jsval \<Rightarrow> jsval \<Rightarrow> jsval \<Rightarrow> jsval
     \<Rightarrow> store \<Rightarrow> exn + store" where
  "refreshStmt now a1 a2 a3 a4 a5 a6 a7 a8 st =
     and_then (bind_all [a1, a2, a3, a4, a5, a6, a7, a8]) (\<lambda>_.
     and_then (int_null_col a1) (\<lambda>v1.
     and_then (int_null_col a2) (\<lambda>v2.
     and_then (text_null_col a3) (\<lambda>v3.
     and_then (int_null_col a4) (\<lambda>v4.
     and_then (text_null_col a5) (\<lambda>v5.
     and_then (text_null_col a6) (\<lambda>v6.
     and_then (int_null_col a7) (\<lambda>v7.
     and_then (text_null_col a8) (\<lambda>i.
       Inr (map (\<lambda>m. if Some (id' m) = i
                       then m\<lparr>is_online := 1, last_healthy := now, last_seen := now,
                              down_since := None,
                              track_count := coalesce_col v1 (track_count m),
                              user_count := coalesce_col v2 (user_count m),
                              version := coalesce_col v3 (version m),
                              p2p_enabled := coalesce_col v4 (p2p_enabled m),
                              p2p_node_id := (case v5 of None \<Rightarrow> p2p_node_id m
                                              | Some x \<Rightarrow> Some x),
                              name := coalesce_col v6 (name m),
                              open_registration := coalesce_col v7 (open_registration m)\<rparr>
                       else m) st))))))))))"

text \<open>\<open>UPDATE nodes SET is_online = 0, down_since = datetime('now') WHERE id = ?\<close>.\<close>

definition mark_offline :: "int \<Rightarrow> string \<Rightarrow> store \<Rightarrow> store" where
  "mark_offline now i st =
     map (\<lambda>m. if id' m = i then m\<lparr>is_online := 0, down_since := Some now\<rparr> else m) st"

text \<open>
  The body of the loop of \<open>runHealthChecks\<close> for one row \<open>node\<close> of the rows selected
  when the cycle began, on the table as it is now.
\<close>

definition check_node :: "env \<Rightarrow> node \<Rightarrow> store \<Rightarrow> exn + store" where
  "check_node e node st =
     (if checkNodeHealth e (domain node) then
        (let info = fetchNodeInfo e (domain node) in
         refreshStmt (datetime_now e)
           (coalesce (js_get info ''track_count'') JNull)
           (coalesce (js_get info ''user_count'') JNull)
           (or_else (js_get info ''version'') JNull)
           (if \<not> nullish (js_get info ''p2p_enabled'')
            then JNum (if truthy (js_get info ''p2p_enabled'') then 1 else 0)
            else JNull)
           (or_else (js_get info ''p2p_node_id'') JNull)
           (or_else (js_get info ''name'') JNull)
           (coalesce (js_get info ''open_registration'') JNull)
           (JStr (id' node)) st)
      else
        (let st1 = (if is_online node \<noteq> 0
                    then mark_offline (datetime_now e) (id' node) st else st) in
         case down_since node of
           None \<Rightarrow> Inr st1
         | Some ds \<Rightarrow>
             if hoursDown e ds \<ge> REMOVAL_THRESHOLD_HOURS
             then Inr (delete_by_id (id' node) st1)
             else Inr st1))"

text \<open>
  One cycle: the table afterwards, the domains probed, in order, and the exception that
  ended the cycle, if one did. Nothing in the loop catches an exception. \<open>E i\<close> is the
  environment while the record with id \<open>i\<close> is processed. (The mark \<open>Unsupported\<close> ends
  the cycle of this function as well, where the program stores the converted value and
  goes on; the statements below about a cycle that ends are about \<open>BindError\<close> only.)
\<close>

record cycle =
  rows :: store
  probed :: "string list"
  raised :: "exn option"

fun sweep :: "(string \<Rightarrow> env) \<Rightarrow> node list \<Rightarrow> store \<Rightarrow> cycle" where
  "sweep E [] st = \<lparr>rows = st, probed = [], raised = None\<rparr>"
| "sweep E (node # nodes) st =
     (case check_node (E (id' node)) node st of
        Inl err \<Rightarrow> \<lparr>rows = st, probed = [domain node], raised = Some err\<rparr>
      | Inr st' \<Rightarrow>
          (let r = sweep E nodes st' in r\<lparr>probed := domain node # probed r\<rparr>))"

definition runHealthChecks :: "(string \<Rightarrow> env) \<Rightarrow> store \<Rightarrow> cycle" where
  "runHealthChecks E st = sweep E st st"

section \<open>Notions of the specification\<close>

text \<open>
  The specification's reading of a loopback host: the host part of the domain (up to a
  port or a path) is \<open>localhost\<close> or \<open>127.0.0.1\<close>.
\<close>

definition host_of :: "string \<Rightarrow> string" where
  "host_of d = takeWhile (\<lambda>c. c \<noteq> CHR '':'' \<and> c \<noteq> CHR ''/'') d"

definition spec_loopback_host :: "string \<Rightarrow> bool" where
  "spec_loopback_host d = (host_of d = ''localhost'' \<or> host_of d = ''127.0.0.1'')"

text \<open>
  A probe attempt that makes a node healthy: a 2xx response whose JSON body has the
  string \<open>"ok"\<close> under \<open>status\<close>. A failed attempt: a network error or timeout, a status
  that is not 2xx, or a body that is not JSON.
\<close>

definition health_ok :: "fetch_result \<Rightarrow> bool" where
  "health_ok r =
     (case r of
        Response ok (Some (JObj kvs)) \<Rightarrow> ok \<and> map_of kvs ''status'' = Some (JStr ''ok'')
      | _ \<Rightarrow> False)"

definition attempt_failed :: "fetch_result \<Rightarrow> bool" where
  "attempt_failed r = (case r of Rejects \<Rightarrow> True | Response ok json \<Rightarrow> \<not> ok \<or> json = None)"

text \<open>
  The invariant of a record: \<open>down_since\<close> is set exactly when \<open>is_online\<close> is 0.
\<close>

definition consistent :: "node \<Rightarrow> bool" where
  "consistent n = ((down_since n \<noteq> None) = (is_online n = 0))"

definition store_ok :: "store \<Rightarrow> bool" where
  "store_ok st = list_all consistent st"

text \<open>
  What never changes in a record, and a row update that keeps it and the invariant.
\<close>

definition identity :: "node \<Rightarrow> string \<times> string \<times> string \<times> int" where
  "identity n = (id' n, token n, domain n, first_seen n)"

definition harmless :: "(node \<Rightarrow> node) \<Rightarrow> bool" where
  "harmless f = (\<forall>m. identity (f m) = identity m \<and> (consistent m \<longrightarrow> consistent (f m)))"

text \<open>
  A sequence of announce requests, each in its own environment.
\<close>

fun announce_all :: "(env \<times> jsval) list \<Rightarrow> store \<Rightarrow> store" where
  "announce_all [] st = st"
| "announce_all ((e, body) # reqs) st = announce_all reqs (snd (announce e body st))"

text \<open>
  A record with this id is in the table; a record has been down for 48 hours.
\<close>

definition present :: "string \<Rightarrow> store \<Rightarrow> bool" where
  "present i st = list_ex (\<lambda>m. id' m = i) st"

definition evict :: "env \<Rightarrow> node \<Rightarrow> bool" where
  "evict e n = (case down_since n of None \<Rightarrow> False
                | Some ds \<Rightarrow> now_ms e - ds * 1000 \<ge> 48 * 60 * 60 * 1000)"

text \<open>
  Values that a statement stores as they are. A field that the program reads with
  \<open>||\<close> goes to a text column: a string is stored, and a falsy value counts as missing.
  A field that it reads with \<open>??\<close> goes to an integer column: a number is stored, and
  \<open>null\<close> or \<open>undefined\<close> counts as missing. (The specification has \<open>openRegistration\<close>
  as a boolean; a JSON boolean is no such value, see \<open>unbindable_info\<close>.)
\<close>

definition text_field :: "jsval \<Rightarrow> bool" where
  "text_field v = (case v of JStr s \<Rightarrow> True | _ \<Rightarrow> \<not> truthy v)"

definition num_field :: "jsval \<Rightarrow> bool" where
  "num_field v = (case v of JNum n \<Rightarrow> True | _ \<Rightarrow> nullish v)"

definition storable_info :: "jsval \<Rightarrow> bool" where
  "storable_info info =
     (text_field (js_get info ''name'') \<and> text_field (js_get info ''description'')
      \<and> text_field (js_get info ''version'') \<and> num_field (js_get info ''track_count'')
      \<and> num_field (js_get info ''user_count'') \<and> num_field (js_get info ''open_registration'')
      \<and> text_field (js_get info ''p2p_node_id''))"

text \<open>
  Fetched info with a value that better-sqlite3 cannot bind where the sweep binds it:
  a boolean or an object in a field read with \<open>??\<close>, or a truthy one in a field read
  with \<open>||\<close>.
\<close>

definition unbindable_info :: "jsval \<Rightarrow> bool" where
  "unbindable_info info =
     (\<not> bindable (js_get info ''track_count'') \<or> \<not> bindable (js_get info ''user_count'')
      \<or> \<not> bindable (js_get info ''open_registration'')
      \<or> truthy (js_get info ''version'') \<and> \<not> bindable (js_get info ''version'')
      \<or> truthy (js_get info ''p2p_node_id'') \<and> \<not> bindable (js_get info ''p2p_node_id'')
      \<or> truthy (js_get info ''name'') \<and> \<not> bindable (js_get info ''name''))"

text \<open>
  The record with this id, as \<open>.get()\<close> would select it.
\<close>

definition row_of :: "string \<Rightarrow> store \<Rightarrow> node option" where
  "row_of i st = find (\<lambda>m. id' m = i) st"

text \<open>
  Precedence, as the specification words it: the first value of a list that is there
  (truthy for \<open>||\<close>, not nullish for \<open>??\<close>), else a default.
\<close>

fun first_truthy :: "jsval list \<Rightarrow> jsval \<Rightarrow> jsval" where
  "first_truthy [] dflt = dflt"
| "first_truthy (v # vs) dflt = (if truthy v then v else first_truthy vs dflt)"

fun first_present :: "jsval list \<Rightarrow> jsval \<Rightarrow> jsval" where
  "first_present [] dflt = dflt"
| "first_present (v # vs) dflt = (if nullish v then first_present vs dflt else v)"

section \<open>Example data\<close>

text \<open>
  A network on which every request fails.
\<close>

definition unreachable :: "string \<Rightarrow> fetch_result" where
  "unreachable url = Rejects"

definition world_down :: env where
  "world_down = \<lparr>fetch = unreachable, now_ms = 0, generateToken = [], generateId = []\<rparr>"

text \<open>
  The node \<open>a.example\<close>: healthy over HTTPS, reporting 10 tracks; its record; requests
  about it.
\<close>

definition net_a :: "string \<Rightarrow> fetch_result" where
  "net_a url =
     (if url = ''https://a.example/healthz''
      then Response True (Some (JObj [(''status'', JStr ''ok'')]))
      else if url = ''https://a.example/api/nodeinfo''
      then Response True (Some (JObj [(''track_count'', JNum 10)]))
      else Rejects)"

definition world_a :: env where
  "world_a = \<lparr>fetch = net_a, now_ms = 5000, generateToken = ''T'', generateId = ''I''\<rparr>"

definition node_a :: node where
  "node_a = \<lparr>id' = ''I'', domain = ''a.example'', name = [], description = [],
      version = [], track_count = 10, user_count = 0, open_registration = 1,
      p2p_enabled = 0, p2p_node_id = None, country = None, token = ''T'',
      first_seen = 5, last_seen = 5, last_healthy = 5, is_online = 1,
      down_since = None\<rparr>"

definition register_a :: jsval where
  "register_a = JObj [(''domain'', JStr ''a.example'')]"

definition heartbeat_a :: jsval where
  "heartbeat_a = JObj [(''domain'', JStr ''a.example''), (''token'', JStr ''T''),
                       (''track_count'', JNum 20)]"

definition unknown_token_a :: jsval where
  "unknown_token_a = JObj [(''domain'', JStr ''a.example''), (''token'', JStr ''X'')]"

definition other_domain_a :: jsval where
  "other_domain_a = JObj [(''domain'', JStr ''b.example''), (''token'', JStr ''T'')]"

text \<open>
  \<open>a.example\<close> down since second 5, and the world 48 hours later with every node
  unreachable.
\<close>

definition node_a_down :: node where
  "node_a_down = node_a\<lparr>is_online := 0, down_since := Some 5\<rparr>"

definition later :: "string \<Rightarrow> env" where
  "later i = \<lparr>fetch = unreachable, now_ms = 5000 + 48 * 60 * 60 * 1000,
               generateToken = [], generateId = []\<rparr>"

text \<open>
  A second record, and a world in which \<open>a.example\<close> reports \<open>open_registration\<close> as
  a JSON boolean.
\<close>

definition node_b :: node where
  "node_b = \<lparr>id' = ''J'', domain = ''b.example'', name = [], description = [],
      version = [], track_count = 0, user_count = 0, open_registration = 1,
      p2p_enabled = 0, p2p_node_id = None, country = None, token = ''U'',
      first_seen = 5, last_seen = 5, last_healthy = 5, is_online = 1,
      down_since = None\<rparr>"

definition net_flag :: "string \<Rightarrow> fetch_result" where
  "net_flag url =
     (if url = ''https://a.example/healthz''
      then Response True (Some (JObj [(''status'', JStr ''ok'')]))
      else if url = ''https://a.example/api/nodeinfo''
      then Response True (Some (JObj [(''open_registration'', JBool True)]))
      else Rejects)"

definition world_bool :: env where
  "world_bool = \<lparr>fetch = net_flag, now_ms = 9000, generateToken = ''T'', generateId = ''I''\<rparr>"

definition world_flag :: "string \<Rightarrow> env" where
  "world_flag i = world_bool"

text \<open>
  Every record of a cycle processed in the world of \<open>a.example\<close>.
\<close>

definition during_a :: "string \<Rightarrow> env" where
  "during_a i = world_a"

section \<open>Properties of the probes\<close>

lemma health_try_ok: "health_try r = Return b \<longleftrightarrow> b \<and> health_ok r"
  by (cases r) (auto simp: health_ok_def Let_def split: option.splits jsval.splits)

lemma health_loop_iff:
  "fst (health_loop e d ps) \<longleftrightarrow> (\<exists>url \<in> set (snd (health_loop e d ps)). health_ok (fetch e url))"
proof (induction ps)
  case Nil
  show ?case by simp
next
  case (Cons p ps)
  show ?case
  proof (cases "health_try (fetch e (p @ ''://'' @ d @ ''/healthz''))")
    case (Return b)
    then have "b \<and> health_ok (fetch e (p @ ''://'' @ d @ ''/healthz''))"
      by (simp only: health_try_ok)
    with Return show ?thesis by (simp add: Let_def)
  next
    case Thrown
    then have "\<not> health_ok (fetch e (p @ ''://'' @ d @ ''/healthz''))"
      using health_try_ok[of "fetch e (p @ ''://'' @ d @ ''/healthz'')" True] by simp
    with Thrown Cons show ?thesis by (simp add: Let_def)
  next
    case Next
    then have "\<not> health_ok (fetch e (p @ ''://'' @ d @ ''/healthz''))"
      using health_try_ok[of "fetch e (p @ ''://'' @ d @ ''/healthz'')" True] by simp
    with Next Cons show ?thesis by (simp add: Let_def)
  qed
qed

lemma failed_not_ok: "attempt_failed r \<Longrightarrow> \<not> health_ok r"
  by (auto simp: attempt_failed_def health_ok_def
      split: fetch_result.splits option.splits jsval.splits)

lemma info_try_failed: "attempt_failed r \<Longrightarrow> info_try r \<noteq> Return v"
  by (cases r) (auto simp: attempt_failed_def split: option.splits)

lemma info_loop_failed:
  "\<forall>url \<in> set (snd (info_loop e d ps)). attempt_failed (fetch e url)
     \<Longrightarrow> fst (info_loop e d ps) = JNull"
proof (induction ps)
  case Nil
  show ?case by simp
next
  case (Cons p ps)
  then show ?case
    using info_try_failed[of "fetch e (p @ ''://'' @ d @ ''/api/nodeinfo'')"]
    by (cases "info_try (fetch e (p @ ''://'' @ d @ ''/api/nodeinfo''))") (auto simp: Let_def)
qed

lemma info_try_Return: "info_try r = Return v \<Longrightarrow> r = Response True (Some v)"
  by (cases r) (auto split: if_splits option.splits)

lemma info_loop_source:
  "fst (info_loop e d ps) = JNull \<or>
   (\<exists>url \<in> set (snd (info_loop e d ps)).
      fetch e url = Response True (Some (fst (info_loop e d ps))))"
proof (induction ps)
  case Nil
  show ?case by simp
next
  case (Cons p ps)
  then show ?case
    by (cases "info_try (fetch e (p @ ''://'' @ d @ ''/api/nodeinfo''))")
       (auto simp: Let_def dest: info_try_Return)
qed

text \<open>
  Claim C7. \<open>checkNodeHealth\<close> answers true exactly when one of the requests it made got
  a 2xx response whose JSON body has \<open>"ok"\<close> under \<open>status\<close>. When every request it
  made failed (network error, timeout, status outside 2xx, body that does not parse) it
  answers false, and \<open>fetchNodeInfo\<close> answers \<open>null\<close> in that case; what \<open>fetchNodeInfo\<close>
  answers otherwise is the parsed body of a 2xx response to one of its requests.
  Both are total functions of the network: a rejected \<open>fetch\<close> and a rejected
  \<open>res.json()\<close> are the outcome \<open>Thrown\<close> of an attempt, which the loop turns into the
  next attempt, so nothing is raised to the caller.
\<close>

theorem probes_never_raise:
  "(checkNodeHealth e d \<longleftrightarrow>
      (\<exists>url \<in> set (snd (checkNodeHealth_trace e d)). health_ok (fetch e url)))
   \<and> ((\<forall>url \<in> set (snd (checkNodeHealth_trace e d)). attempt_failed (fetch e url))
        \<longrightarrow> \<not> checkNodeHealth e d)
   \<and> ((\<forall>url \<in> set (snd (fetchNodeInfo_trace e d)). attempt_failed (fetch e url))
        \<longrightarrow> fetchNodeInfo e d = JNull)
   \<and> (fetchNodeInfo e d = JNull \<or>
       (\<exists>url \<in> set (snd (fetchNodeInfo_trace e d)).
          fetch e url = Response True (Some (fetchNodeInfo e d))))"
proof -
  have a: "checkNodeHealth e d \<longleftrightarrow>
      (\<exists>url \<in> set (snd (checkNodeHealth_trace e d)). health_ok (fetch e url))"
    unfolding checkNodeHealth_def checkNodeHealth_trace_def by (rule health_loop_iff)
  have b: "(\<forall>url \<in> set (snd (checkNodeHealth_trace e d)). attempt_failed (fetch e url))
        \<longrightarrow> \<not> checkNodeHealth e d"
    using a failed_not_ok by blast
  have c: "(\<forall>url \<in> set (snd (fetchNodeInfo_trace e d)). attempt_failed (fetch e url))
        \<longrightarrow> fetchNodeInfo e d = JNull"
    unfolding fetchNodeInfo_def fetchNodeInfo_trace_def using info_loop_failed by blast
  have d: "fetchNodeInfo e d = JNull \<or>
       (\<exists>url \<in> set (snd (fetchNodeInfo_trace e d)).
          fetch e url = Response True (Some (fetchNodeInfo e d)))"
    unfolding fetchNodeInfo_def fetchNodeInfo_trace_def by (rule info_loop_source)
  from a b c d show ?thesis by blast
qed

theorem probes_never_raise_witness:
  "\<not> checkNodeHealth world_down ''a.example'' \<and> fetchNodeInfo world_down ''a.example'' = JNull"
  using probes_never_raise[of world_down "''a.example''"]
  by (simp add: world_down_def unreachable_def attempt_failed_def health_ok_def
      checkNodeHealth_trace_def fetchNodeInfo_trace_def protocols_def startsWith_def)

text \<open>
  The specification says that only HTTP is tried for a \<open>localhost\<close> or \<open>127.0.0.1\<close>
  host and that every other domain is tried over HTTPS first. The domain
  \<open>localhost.example.com\<close> is no loopback host, and it is probed over HTTP only.
\<close>

theorem loopback_host_counterexample:
  "\<not> spec_loopback_host ''localhost.example.com'' \<and>
   snd (checkNodeHealth_trace world_down ''localhost.example.com'')
     = [''http://localhost.example.com/healthz'']"
  by (simp add: spec_loopback_host_def host_of_def checkNodeHealth_trace_def protocols_def
      startsWith_def world_down_def unreachable_def)

lemma health_try_True: "health_try r = Return b \<Longrightarrow> b"
  by (simp add: health_try_ok)

text \<open>
  Claim C8, as amended. Both probes request over HTTP only when the domain string
  starts with \<open>localhost\<close> or contains \<open>127.0.0.1\<close> anywhere. For every other domain
  they request over HTTPS first, and over HTTP next exactly when the HTTPS attempt did
  not return a result (for the health probe: a 2xx response with status \<open>"ok"\<close>; for the
  info probe: a 2xx response with a JSON body).
\<close>

theorem probe_protocol_order:
  "snd (checkNodeHealth_trace e d) =
     (if startsWith d ''localhost'' \<or> js_includes ''127.0.0.1'' d
      then [''http://'' @ d @ ''/healthz'']
      else if health_try (fetch e (''https://'' @ d @ ''/healthz'')) = Return True
           then [''https://'' @ d @ ''/healthz'']
           else [''https://'' @ d @ ''/healthz'', ''http://'' @ d @ ''/healthz''])
   \<and> snd (fetchNodeInfo_trace e d) =
     (if startsWith d ''localhost'' \<or> js_includes ''127.0.0.1'' d
      then [''http://'' @ d @ ''/api/nodeinfo'']
      else if (\<exists>v. info_try (fetch e (''https://'' @ d @ ''/api/nodeinfo'')) = Return v)
           then [''https://'' @ d @ ''/api/nodeinfo'']
           else [''https://'' @ d @ ''/api/nodeinfo'', ''http://'' @ d @ ''/api/nodeinfo''])"
proof -
  have h: "snd (checkNodeHealth_trace e d) =
     (if startsWith d ''localhost'' \<or> js_includes ''127.0.0.1'' d
      then [''http://'' @ d @ ''/healthz'']
      else if health_try (fetch e (''https://'' @ d @ ''/healthz'')) = Return True
           then [''https://'' @ d @ ''/healthz'']
           else [''https://'' @ d @ ''/healthz'', ''http://'' @ d @ ''/healthz''])"
    by (auto simp: checkNodeHealth_trace_def protocols_def Let_def
        split: outcome.splits dest: health_try_True)
  have i: "snd (fetchNodeInfo_trace e d) =
     (if startsWith d ''localhost'' \<or> js_includes ''127.0.0.1'' d
      then [''http://'' @ d @ ''/api/nodeinfo'']
      else if (\<exists>v. info_try (fetch e (''https://'' @ d @ ''/api/nodeinfo'')) = Return v)
           then [''https://'' @ d @ ''/api/nodeinfo'']
           else [''https://'' @ d @ ''/api/nodeinfo'', ''http://'' @ d @ ''/api/nodeinfo''])"
    by (auto simp: fetchNodeInfo_trace_def protocols_def Let_def split: outcome.splits)
  from h i show ?thesis by (rule conjI)
qed

section \<open>What the statements change\<close>

lemma find_map_same:
  "find P xs = Some x \<Longrightarrow> (\<And>m. P (f m) = P m) \<Longrightarrow> find P (map f xs) = Some (f x)"
  by (induction xs) (auto split: if_splits)

lemma and_then_Inr: "and_then x f = Inr y \<longleftrightarrow> (\<exists>v. x = Inr v \<and> f v = Inr y)"
  by (cases x) auto

lemma updateStmt_map:
  assumes "updateStmt now a1 a2 a3 a4 a5 a6 a7 a8 a9 st = Inr st'"
  shows "\<exists>f. harmless f \<and> st' = map f st"
proof -
  from assms obtain v1 v2 v3 v4 v5 v6 v7 v8 t where
    st': "st' = map (\<lambda>m. if Some (token m) = t
                       then m\<lparr>name := v1, description := v2, version := v3,
                              track_count := v4, user_count := v5,
                              open_registration := v6, p2p_enabled := v7,
                              p2p_node_id := v8, last_seen := now,
                              last_healthy := now, is_online := 1,
                              down_since := None\<rparr>
                       else m) st"
    by (auto simp: updateStmt_def and_then_Inr simp del: map_eq_conv)
  show ?thesis
    by (rule exI, rule conjI[OF _ st']) (simp add: harmless_def identity_def consistent_def)
qed

lemma refreshStmt_map:
  assumes "refreshStmt now a1 a2 a3 a4 a5 a6 a7 a8 st = Inr st'"
  shows "\<exists>f. harmless f \<and> st' = map f st"
proof -
  from assms obtain v1 v2 v3 v4 v5 v6 v7 i where
    st': "st' = map (\<lambda>m. if Some (id' m) = i
                       then m\<lparr>is_online := 1, last_healthy := now, last_seen := now,
                              down_since := None,
                              track_count := coalesce_col v1 (track_count m),
                              user_count := coalesce_col v2 (user_count m),
                              version := coalesce_col v3 (version m),
                              p2p_enabled := coalesce_col v4 (p2p_enabled m),
                              p2p_node_id := (case v5 of None \<Rightarrow> p2p_node_id m
                                              | Some x \<Rightarrow> Some x),
                              name := coalesce_col v6 (name m),
                              open_registration := coalesce_col v7 (open_registration m)\<rparr>
                       else m) st"
    by (auto simp: refreshStmt_def and_then_Inr simp del: map_eq_conv)
  show ?thesis
    by (rule exI, rule conjI[OF _ st']) (simp add: harmless_def identity_def consistent_def)
qed

lemma mark_offline_map: "\<exists>f. harmless f \<and> mark_offline now i st = map f st"
  unfolding mark_offline_def
  by (rule exI, rule conjI[OF _ refl]) (simp add: harmless_def identity_def consistent_def)

lemma harmless_all: "harmless f \<Longrightarrow> list_all consistent st \<Longrightarrow> list_all consistent (map f st)"
  by (induction st) (auto simp: harmless_def)

lemma harmless_identity: "harmless f \<Longrightarrow> map identity (map f st) = map identity st"
  by (induction st) (auto simp: harmless_def)

lemma insertStmt_append:
  assumes "insertStmt now a1 a2 a3 a4 a5 a6 a7 a8 a9 a10 a11 st = Inr st'"
  shows "\<exists>row. st' = st @ [row] \<and> consistent row"
  using assms
  by (auto simp: insertStmt_def and_then_Inr consistent_def split: if_splits)

lemma delete_by_id_all: "list_all consistent st \<Longrightarrow> list_all consistent (delete_by_id i st)"
  by (induction st) (auto simp: delete_by_id_def)

lemma heartbeat_store:
  assumes "heartbeat e cd rn rd rv rt st = Inr (res, st')"
  shows "st' = st \<or> (\<exists>f. harmless f \<and> st' = map f st)"
  using assms
  by (auto simp: heartbeat_def and_then_Inr Let_def split: option.splits if_splits
      dest: updateStmt_map)

lemma register_store:
  assumes "register e cd rn rd rv st = Inr (res, st')"
  shows "st' = st \<or> (\<exists>row. st' = st @ [row] \<and> consistent row)"
  using assms
  by (auto simp: register_def and_then_Inr Let_def split: option.splits if_splits
      dest: insertStmt_append)

lemma announce_store:
  "snd (announce e body st) = st
   \<or> (truthy (js_get body ''token'') \<and> (\<exists>f. harmless f \<and> snd (announce e body st) = map f st))
   \<or> (\<not> truthy (js_get body ''token'') \<and> (\<exists>row. snd (announce e body st) = st @ [row] \<and> consistent row))"
proof (cases "js_get body ''domain''")
  case (JStr d)
  show ?thesis
  proof (cases "d = []")
    case True
    with JStr show ?thesis by (simp add: announce_def)
  next
    case False
    show ?thesis
    proof (cases "truthy (js_get body ''token'')")
      case True
      show ?thesis
      proof (cases "heartbeat e (cleanDomain d) (js_get body ''name'') (js_get body ''description'')
                      (js_get body ''version'') (js_get body ''token'') st")
        case (Inl err)
        with JStr False True show ?thesis
          by (cases err) (simp_all add: announce_def Let_def)
      next
        case (Inr r)
        obtain res st' where r: "r = (res, st')" by (cases r)
        from heartbeat_store[OF Inr[unfolded r]] JStr False True Inr r show ?thesis
          by (auto simp: announce_def Let_def)
      qed
    next
      case nt: False
      show ?thesis
      proof (cases "register e (cleanDomain d) (js_get body ''name'') (js_get body ''description'')
                      (js_get body ''version'') st")
        case (Inl err)
        with JStr False nt show ?thesis
          by (cases err) (simp_all add: announce_def Let_def)
      next
        case (Inr r)
        obtain res st' where r: "r = (res, st')" by (cases r)
        from register_store[OF Inr[unfolded r]] JStr False nt Inr r show ?thesis
          by (auto simp: announce_def Let_def)
      qed
    qed
  qed
qed (simp_all add: announce_def)

section \<open>The invariant of a record\<close>

lemma check_node_ok:
  assumes "check_node e n st = Inr st'" and "list_all consistent st"
  shows "list_all consistent st'"
proof (cases "checkNodeHealth e (domain n)")
  case True
  with assms(1) obtain f where "harmless f" "st' = map f st"
    by (auto simp: check_node_def Let_def dest: refreshStmt_map)
  with assms(2) show ?thesis by (simp add: harmless_all)
next
  case False
  define st1 where "st1 = (if is_online n \<noteq> 0
                    then mark_offline (datetime_now e) (id' n) st else st)"
  have ok1: "list_all consistent st1"
    using mark_offline_map[of "datetime_now e" "id' n" st] assms(2)
    by (auto simp: st1_def harmless_all)
  from assms(1) False have "st' = st1 \<or> st' = delete_by_id (id' n) st1"
    by (auto simp: check_node_def Let_def st1_def split: option.splits if_splits)
  with ok1 show ?thesis by (auto simp: delete_by_id_all)
qed

lemma sweep_ok: "list_all consistent st \<Longrightarrow> list_all consistent (rows (sweep E ns st))"
proof (induction ns arbitrary: st)
  case Nil
  then show ?case by simp
next
  case (Cons n ns)
  show ?case
  proof (cases "check_node (E (id' n)) n st")
    case (Inl err)
    with Cons.prems show ?thesis by simp
  next
    case (Inr st')
    have "list_all consistent st'" by (rule check_node_ok[OF Inr Cons.prems])
    then have "list_all consistent (rows (sweep E ns st'))" by (rule Cons.IH)
    with Inr show ?thesis by (simp add: Let_def)
  qed
qed

lemma announce_ok:
  assumes "list_all consistent st"
  shows "list_all consistent (snd (announce e body st))"
  using announce_store[of e body st] assms by (auto simp: harmless_all)

lemma delete_node_ok:
  assumes "list_all consistent st"
  shows "list_all consistent (snd (delete_node a d st))"
  using assms by (auto simp: delete_node_def Let_def delete_by_id_all split: option.splits)

text \<open>
  Claim C4. Registration and heartbeat (\<open>announce\<close>), deletion and a sweep cycle
  each keep the invariant that, in every record, \<open>down_since\<close> is set exactly when
  \<open>is_online\<close> is 0. For a cycle that an exception ends, the table it leaves keeps
  the invariant as well.
\<close>

theorem down_since_iff_offline:
  assumes "store_ok st"
  shows "store_ok (snd (announce e body st))
       \<and> store_ok (snd (delete_node authorization d st))
       \<and> store_ok (rows (runHealthChecks E st))"
  using assms unfolding store_ok_def runHealthChecks_def
  by (simp add: announce_ok delete_node_ok sweep_ok)

theorem down_since_iff_offline_witness:
  "store_ok [node_a]
   \<and> store_ok (snd (announce world_a heartbeat_a [node_a]))
   \<and> store_ok (snd (delete_node (Some ''Bearer T'') ''a.example'' [node_a]))
   \<and> store_ok (rows (runHealthChecks later [node_a]))"
  using down_since_iff_offline[of "[node_a]" world_a heartbeat_a "Some ''Bearer T''"
      "''a.example''" later]
  by (simp add: store_ok_def consistent_def node_a_def)

section \<open>What a heartbeat never changes\<close>

lemma announce_identity:
  assumes "truthy (js_get body ''token'')"
  shows "map identity (snd (announce e body st)) = map identity st"
proof -
  have "snd (announce e body st) = st
        \<or> (\<exists>f. harmless f \<and> snd (announce e body st) = map f st)"
    using announce_store[of e body st] assms by blast
  then show ?thesis by (metis harmless_identity)
qed

text \<open>
  Claim C9. Heartbeats (announce requests with a token), however many and whatever
  they answer, leave \<open>id\<close>, \<open>token\<close>, \<open>domain\<close> and \<open>first_seen\<close> of every record as
  they were, and add or remove no record.
\<close>

theorem heartbeat_keeps_identity:
  assumes "\<forall>(e, body) \<in> set reqs. truthy (js_get body ''token'')"
  shows "map identity (announce_all reqs st) = map identity st"
  using assms
proof (induction reqs arbitrary: st)
  case Nil
  show ?case by simp
next
  case (Cons r reqs)
  obtain e body where r: "r = (e, body)" by (cases r)
  from Cons.prems r have t: "truthy (js_get body ''token'')" by simp
  from Cons.prems have "\<forall>(e, body) \<in> set reqs. truthy (js_get body ''token'')" by simp
  then have "map identity (announce_all reqs (snd (announce e body st)))
             = map identity (snd (announce e body st))" by (rule Cons.IH)
  with announce_identity[OF t] r show ?case by simp
qed

theorem heartbeat_keeps_identity_witness:
  "map identity (announce_all [(world_a, heartbeat_a), (world_a, heartbeat_a)] [node_a])
     = [(''I'', ''T'', ''a.example'', 5)]"
  using heartbeat_keeps_identity[of "[(world_a, heartbeat_a), (world_a, heartbeat_a)]" "[node_a]"]
  by (simp add: heartbeat_a_def identity_def node_a_def)

section \<open>Eviction\<close>

lemma hoursDown_ge:
  "hoursDown e ds \<ge> REMOVAL_THRESHOLD_HOURS \<longleftrightarrow> now_ms e - ds * 1000 \<ge> 48 * 60 * 60 * 1000"
proof -
  have "(48::rat) \<le> of_int (now_ms e - ds * 1000) / 3600000
        \<longleftrightarrow> (48::rat) * 3600000 \<le> of_int (now_ms e - ds * 1000)"
    by (rule pos_le_divide_eq) simp
  also have "\<dots> \<longleftrightarrow> (of_int 172800000 :: rat) \<le> of_int (now_ms e - ds * 1000)" by simp
  also have "\<dots> \<longleftrightarrow> 172800000 \<le> now_ms e - ds * 1000" by (rule of_int_le_iff)
  finally show ?thesis by (simp add: hoursDown_def REMOVAL_THRESHOLD_HOURS_def)
qed

lemma present_map: "harmless f \<Longrightarrow> present i (map f st) = present i st"
  by (induction st) (auto simp: present_def harmless_def identity_def)

lemma present_delete: "present i (delete_by_id j st) = (i \<noteq> j \<and> present i st)"
  by (induction st) (auto simp: present_def delete_by_id_def)

lemma check_node_present:
  assumes "check_node e n st = Inr st'"
  shows "present i st' =
           (present i st \<and> \<not> (i = id' n \<and> \<not> checkNodeHealth e (domain n) \<and> evict e n))"
proof (cases "checkNodeHealth e (domain n)")
  case True
  with assms obtain f where "harmless f" "st' = map f st"
    by (auto simp: check_node_def Let_def dest: refreshStmt_map)
  with True show ?thesis by (simp add: present_map)
next
  case False
  define st1 where "st1 = (if is_online n \<noteq> 0
                    then mark_offline (datetime_now e) (id' n) st else st)"
  have p1: "present i st1 = present i st"
    using mark_offline_map[of "datetime_now e" "id' n" st]
    by (auto simp: st1_def present_map)
  from assms False have "st' = (if evict e n then delete_by_id (id' n) st1 else st1)"
    by (auto simp: check_node_def Let_def st1_def evict_def hoursDown_ge split: option.splits if_splits)
  with p1 False show ?thesis by (auto simp: present_delete)
qed

lemma check_node_offline_total:
  "\<not> checkNodeHealth e (domain n) \<Longrightarrow> \<exists>st'. check_node e n st = Inr st'"
  by (auto simp: check_node_def Let_def split: option.splits)

lemma sweep_other:
  "i \<notin> id' ` set ns \<Longrightarrow> present i (rows (sweep E ns st)) = present i st"
proof (induction ns arbitrary: st)
  case Nil
  show ?case by simp
next
  case (Cons n ns)
  show ?case
  proof (cases "check_node (E (id' n)) n st")
    case (Inl err)
    then show ?thesis by simp
  next
    case (Inr st')
    from Cons.prems have "i \<notin> id' ` set ns" and ne: "i \<noteq> id' n" by auto
    then have "present i (rows (sweep E ns st')) = present i st'" using Cons.IH by blast
    with Inr ne check_node_present[OF Inr, of i] show ?thesis by (simp add: Let_def)
  qed
qed

lemma sweep_probed_present:
  assumes "distinct (map id' ns)" and "distinct (map domain ns)" and "node \<in> set ns"
    and "domain node \<in> set (probed (sweep E ns st))"
    and "\<not> checkNodeHealth (E (id' node)) (domain node)"
  shows "present (id' node) (rows (sweep E ns st))
         = (present (id' node) st \<and> \<not> evict (E (id' node)) node)"
  using assms
proof (induction ns arbitrary: st)
  case Nil
  then show ?case by simp
next
  case (Cons n ns)
  show ?case
  proof (cases "node = n")
    case True
    from Cons.prems(5) True obtain st' where st': "check_node (E (id' n)) n st = Inr st'"
      using check_node_offline_total by blast
    from Cons.prems(1) have "id' n \<notin> id' ` set ns" by simp
    then have "present (id' n) (rows (sweep E ns st')) = present (id' n) st'"
      by (rule sweep_other)
    with st' check_node_present[OF st', of "id' n"] Cons.prems(5) True show ?thesis
      by (simp add: Let_def)
  next
    case False
    with Cons.prems(3) have in_ns: "node \<in> set ns" by simp
    then have "id' node \<in> id' ` set ns" and "domain node \<in> domain ` set ns" by auto
    with Cons.prems(1,2) have ne: "id' node \<noteq> id' n" "domain node \<noteq> domain n" by auto
    show ?thesis
    proof (cases "check_node (E (id' n)) n st")
      case (Inl err)
      with Cons.prems(4) ne show ?thesis by simp
    next
      case (Inr st')
      with Cons.prems(4) ne have "domain node \<in> set (probed (sweep E ns st'))"
        by (simp add: Let_def)
      with Cons.prems(1,2,5) in_ns
      have "present (id' node) (rows (sweep E ns st'))
            = (present (id' node) st' \<and> \<not> evict (E (id' node)) node)"
        using Cons.IH by simp
      with Inr ne check_node_present[OF Inr, of "id' node"] show ?thesis by (simp add: Let_def)
    qed
  qed
qed

text \<open>
  Claim C2. Take a table with unique ids and domains, and a record of it that a cycle
  probed and found unreachable. After the cycle the record is gone exactly when its
  \<open>down_since\<close>, as stored when the cycle began, was set and lies at least 48 hours
  (172800000 ms) before the time at which the record was processed. So a record down
  for exactly 48 hours is deleted, one down for 47 hours 59 minutes is kept, and a
  record that was online when the cycle began (its \<open>down_since\<close> is then \<open>NULL\<close>, by the
  invariant) is kept in the cycle that marks it offline.
\<close>

theorem eviction_threshold:
  assumes "distinct (map id' st)" and "distinct (map domain st)" and "node \<in> set st"
    and "domain node \<in> set (probed (runHealthChecks E st))"
    and "\<not> checkNodeHealth (E (id' node)) (domain node)"
  shows "(\<not> present (id' node) (rows (runHealthChecks E st))
            \<longleftrightarrow> (\<exists>ds. down_since node = Some ds
                       \<and> now_ms (E (id' node)) - ds * 1000 \<ge> 48 * 60 * 60 * 1000))
       \<and> (\<forall>ds. down_since node = Some ds
                \<and> now_ms (E (id' node)) - ds * 1000 = 48 * 60 * 60 * 1000
              \<longrightarrow> \<not> present (id' node) (rows (runHealthChecks E st)))
       \<and> (\<forall>ds. down_since node = Some ds
                \<and> now_ms (E (id' node)) - ds * 1000 = (47 * 60 + 59) * 60 * 1000
              \<longrightarrow> present (id' node) (rows (runHealthChecks E st)))
       \<and> (is_online node \<noteq> 0 \<and> consistent node
              \<longrightarrow> present (id' node) (rows (runHealthChecks E st)))"
proof -
  from assms(3) have "present (id' node) st" by (auto simp: present_def list_ex_iff)
  with sweep_probed_present[OF assms(1,2,3) assms(4)[unfolded runHealthChecks_def] assms(5)]
  have p: "present (id' node) (rows (runHealthChecks E st)) = (\<not> evict (E (id' node)) node)"
    by (simp add: runHealthChecks_def)
  show ?thesis unfolding p
    by (auto simp: evict_def consistent_def split: option.splits)
qed

theorem eviction_threshold_witness:
  "\<not> present ''I'' (rows (runHealthChecks later [node_a_down]))
   \<and> present ''I'' (rows (runHealthChecks later [node_a]))"
  using eviction_threshold[of "[node_a_down]" node_a_down later]
    eviction_threshold[of "[node_a]" node_a later]
  by (simp add: node_a_down_def node_a_def later_def unreachable_def consistent_def
      runHealthChecks_def check_node_def checkNodeHealth_def checkNodeHealth_trace_def
      protocols_def startsWith_def Let_def mark_offline_def datetime_now_def
      hoursDown_def REMOVAL_THRESHOLD_HOURS_def delete_by_id_def)

section \<open>One record does not stop the cycle, an exception does\<close>

lemma text_field_null:
  "text_field v \<Longrightarrow> or_else v JNull = JNull \<or> (\<exists>s. or_else v JNull = JStr s)"
  by (cases v) (auto simp: text_field_def or_else_def)

lemma num_field_null:
  "num_field v \<Longrightarrow> coalesce v JNull = JNull \<or> (\<exists>n. coalesce v JNull = JNum n)"
  by (cases v) (auto simp: num_field_def coalesce_def)

lemma int_null_ok: "a = JNull \<or> (\<exists>n. a = JNum n) \<Longrightarrow> bindable a \<and> (\<exists>v. int_null_col a = Inr v)"
  by auto

lemma text_null_ok: "a = JNull \<or> (\<exists>s. a = JStr s) \<Longrightarrow> bindable a \<and> (\<exists>v. text_null_col a = Inr v)"
  by auto

lemma refreshStmt_total:
  assumes "a1 = JNull \<or> (\<exists>n. a1 = JNum n)" and "a2 = JNull \<or> (\<exists>n. a2 = JNum n)"
    and "a3 = JNull \<or> (\<exists>s. a3 = JStr s)" and "a4 = JNull \<or> (\<exists>n. a4 = JNum n)"
    and "a5 = JNull \<or> (\<exists>s. a5 = JStr s)" and "a6 = JNull \<or> (\<exists>s. a6 = JStr s)"
    and "a7 = JNull \<or> (\<exists>n. a7 = JNum n)"
  shows "\<exists>st'. refreshStmt now a1 a2 a3 a4 a5 a6 a7 (JStr i) st = Inr st'"
proof -
  from int_null_ok[OF assms(1)] obtain v1 where b1: "bindable a1" "int_null_col a1 = Inr v1" by blast
  from int_null_ok[OF assms(2)] obtain v2 where b2: "bindable a2" "int_null_col a2 = Inr v2" by blast
  from text_null_ok[OF assms(3)] obtain v3 where b3: "bindable a3" "text_null_col a3 = Inr v3" by blast
  from int_null_ok[OF assms(4)] obtain v4 where b4: "bindable a4" "int_null_col a4 = Inr v4" by blast
  from text_null_ok[OF assms(5)] obtain v5 where b5: "bindable a5" "text_null_col a5 = Inr v5" by blast
  from text_null_ok[OF assms(6)] obtain v6 where b6: "bindable a6" "text_null_col a6 = Inr v6" by blast
  from int_null_ok[OF assms(7)] obtain v7 where b7: "bindable a7" "int_null_col a7 = Inr v7" by blast
  show ?thesis
    by (simp add: refreshStmt_def bind_all_def b1 b2 b3 b4 b5 b6 b7)
qed

lemma check_node_total:
  assumes "\<not> checkNodeHealth e (domain n) \<or> storable_info (fetchNodeInfo e (domain n))"
  shows "\<exists>st'. check_node e n st = Inr st'"
proof (cases "checkNodeHealth e (domain n)")
  case False
  then show ?thesis by (rule check_node_offline_total)
next
  case True
  let ?info = "fetchNodeInfo e (domain n)"
  from True assms have wt: "storable_info ?info" by simp
  then have f: "text_field (js_get ?info ''name'')" "text_field (js_get ?info ''version'')"
    "num_field (js_get ?info ''track_count'')" "num_field (js_get ?info ''user_count'')"
    "num_field (js_get ?info ''open_registration'')" "text_field (js_get ?info ''p2p_node_id'')"
    by (simp_all add: storable_info_def)
  have "\<exists>st'. refreshStmt (datetime_now e)
           (coalesce (js_get ?info ''track_count'') JNull)
           (coalesce (js_get ?info ''user_count'') JNull)
           (or_else (js_get ?info ''version'') JNull)
           (if \<not> nullish (js_get ?info ''p2p_enabled'')
            then JNum (if truthy (js_get ?info ''p2p_enabled'') then 1 else 0)
            else JNull)
           (or_else (js_get ?info ''p2p_node_id'') JNull)
           (or_else (js_get ?info ''name'') JNull)
           (coalesce (js_get ?info ''open_registration'') JNull)
           (JStr (id' n)) st = Inr st'"
    by (rule refreshStmt_total)
       (simp_all add: num_field_null[OF f(3)] num_field_null[OF f(4)] num_field_null[OF f(5)]
          text_field_null[OF f(1)] text_field_null[OF f(2)] text_field_null[OF f(6)])
  with True show ?thesis unfolding check_node_def Let_def by (simp only: if_True)
qed

lemma sweep_prefix: "prefix (probed (sweep E ns st)) (map domain ns)"
proof (induction ns arbitrary: st)
  case Nil
  show ?case by simp
next
  case (Cons n ns)
  then show ?case
    by (cases "check_node (E (id' n)) n st") (simp_all add: Let_def)
qed

lemma sweep_all_probed:
  "raised (sweep E ns st) = None \<Longrightarrow> probed (sweep E ns st) = map domain ns"
proof (induction ns arbitrary: st)
  case Nil
  show ?case by simp
next
  case (Cons n ns)
  then show ?case
    by (cases "check_node (E (id' n)) n st") (simp_all add: Let_def)
qed

lemma sweep_no_raise:
  assumes "\<forall>n \<in> set ns. \<not> checkNodeHealth (E (id' n)) (domain n)
                \<or> storable_info (fetchNodeInfo (E (id' n)) (domain n))"
  shows "raised (sweep E ns st) = None"
  using assms
proof (induction ns arbitrary: st)
  case Nil
  show ?case by simp
next
  case (Cons n ns)
  from Cons.prems have "\<not> checkNodeHealth (E (id' n)) (domain n)
                \<or> storable_info (fetchNodeInfo (E (id' n)) (domain n))" by simp
  then obtain st' where st': "check_node (E (id' n)) n st = Inr st'"
    using check_node_total by blast
  from Cons.prems have "raised (sweep E ns st') = None" by (intro Cons.IH) simp
  with st' show ?case by (simp add: Let_def)
qed

lemma find_map_frame:
  assumes "\<And>m. id' (g m) = id' m" and "\<And>m. id' m = i \<Longrightarrow> g m = m"
  shows "find (\<lambda>m. id' m = i) (map g xs) = find (\<lambda>m. id' m = i) xs"
  using assms by (induction xs) auto

lemma find_filter_frame:
  "i \<noteq> j \<Longrightarrow> find (\<lambda>m. id' m = i) (filter (\<lambda>m. id' m \<noteq> j) xs) = find (\<lambda>m. id' m = i) xs"
  by (induction xs) auto

lemma refreshStmt_frame:
  assumes "refreshStmt now a1 a2 a3 a4 a5 a6 a7 (JStr j) st = Inr st'" and "i \<noteq> j"
  shows "row_of i st' = row_of i st"
proof -
  from assms(1) obtain v1 v2 v3 v4 v5 v6 v7 where
    st': "st' = map (\<lambda>m. if Some (id' m) = Some j
                       then m\<lparr>is_online := 1, last_healthy := now, last_seen := now,
                              down_since := None,
                              track_count := coalesce_col v1 (track_count m),
                              user_count := coalesce_col v2 (user_count m),
                              version := coalesce_col v3 (version m),
                              p2p_enabled := coalesce_col v4 (p2p_enabled m),
                              p2p_node_id := (case v5 of None \<Rightarrow> p2p_node_id m
                                              | Some x \<Rightarrow> Some x),
                              name := coalesce_col v6 (name m),
                              open_registration := coalesce_col v7 (open_registration m)\<rparr>
                       else m) st"
    by (auto simp: refreshStmt_def and_then_Inr simp del: map_eq_conv)
  show ?thesis unfolding row_of_def st' using assms(2) by (intro find_map_frame) auto
qed

lemma refreshStmt_own:
  assumes "refreshStmt now a1 a2 a3 a4 a5 a6 a7 (JStr j) st = Inr st'" and "row_of j st = Some n0"
  shows "\<exists>row. row_of j st' = Some row \<and> is_online row = 1 \<and> down_since row = None
           \<and> last_healthy row = now \<and> last_seen row = now \<and> identity row = identity n0"
proof -
  from assms(1) obtain v1 v2 v3 v4 v5 v6 v7 where
    st': "st' = map (\<lambda>m. if Some (id' m) = Some j
                       then m\<lparr>is_online := 1, last_healthy := now, last_seen := now,
                              down_since := None,
                              track_count := coalesce_col v1 (track_count m),
                              user_count := coalesce_col v2 (user_count m),
                              version := coalesce_col v3 (version m),
                              p2p_enabled := coalesce_col v4 (p2p_enabled m),
                              p2p_node_id := (case v5 of None \<Rightarrow> p2p_node_id m
                                              | Some x \<Rightarrow> Some x),
                              name := coalesce_col v6 (name m),
                              open_registration := coalesce_col v7 (open_registration m)\<rparr>
                       else m) st"
    by (auto simp: refreshStmt_def and_then_Inr simp del: map_eq_conv)
  from assms(2) have idn: "id' n0 = j" by (auto simp: row_of_def dest: find_Some_iff[THEN iffD1])
  have "row_of j st' = Some ((\<lambda>m. if Some (id' m) = Some j
                       then m\<lparr>is_online := 1, last_healthy := now, last_seen := now,
                              down_since := None,
                              track_count := coalesce_col v1 (track_count m),
                              user_count := coalesce_col v2 (user_count m),
                              version := coalesce_col v3 (version m),
                              p2p_enabled := coalesce_col v4 (p2p_enabled m),
                              p2p_node_id := (case v5 of None \<Rightarrow> p2p_node_id m
                                              | Some x \<Rightarrow> Some x),
                              name := coalesce_col v6 (name m),
                              open_registration := coalesce_col v7 (open_registration m)\<rparr>
                       else m) n0)"
    unfolding row_of_def st' by (rule find_map_same[OF assms(2)[unfolded row_of_def]]) simp
  then show ?thesis using idn by (simp add: identity_def)
qed

lemma mark_offline_frame: "i \<noteq> j \<Longrightarrow> row_of i (mark_offline now j st) = row_of i st"
  unfolding row_of_def mark_offline_def by (intro find_map_frame) auto

lemma mark_offline_own:
  "row_of j st = Some n0 \<Longrightarrow>
   row_of j (mark_offline now j st) = Some (n0\<lparr>is_online := 0, down_since := Some now\<rparr>)"
proof -
  assume a: "row_of j st = Some n0"
  then have idn: "id' n0 = j" by (auto simp: row_of_def dest: find_Some_iff[THEN iffD1])
  have "row_of j (mark_offline now j st)
        = Some ((\<lambda>m. if id' m = j then m\<lparr>is_online := 0, down_since := Some now\<rparr> else m) n0)"
    unfolding row_of_def mark_offline_def
    by (rule find_map_same[OF a[unfolded row_of_def]]) simp
  with idn show ?thesis by simp
qed

lemma delete_frame: "i \<noteq> j \<Longrightarrow> row_of i (delete_by_id j st) = row_of i st"
  unfolding row_of_def delete_by_id_def by (rule find_filter_frame)

lemma check_node_frame:
  assumes "check_node e n st = Inr st'" and "i \<noteq> id' n"
  shows "row_of i st' = row_of i st"
proof (cases "checkNodeHealth e (domain n)")
  case True
  with assms show ?thesis
    by (auto simp: check_node_def Let_def dest: refreshStmt_frame)
next
  case False
  define st1 where "st1 = (if is_online n \<noteq> 0
                    then mark_offline (datetime_now e) (id' n) st else st)"
  have p1: "row_of i st1 = row_of i st"
    using assms(2) by (simp add: st1_def mark_offline_frame)
  from assms(1) False have "st' = st1 \<or> st' = delete_by_id (id' n) st1"
    by (auto simp: check_node_def Let_def st1_def split: option.splits if_splits)
  with p1 assms(2) show ?thesis by (auto simp: delete_frame)
qed

lemma check_node_healthy_row:
  assumes "check_node e n st = Inr st'" and "checkNodeHealth e (domain n)"
    and "row_of (id' n) st = Some n0"
  shows "\<exists>row. row_of (id' n) st' = Some row \<and> is_online row = 1 \<and> down_since row = None
           \<and> last_healthy row = datetime_now e \<and> last_seen row = datetime_now e
           \<and> identity row = identity n0"
  using assms by (auto simp: check_node_def Let_def dest: refreshStmt_own)

lemma check_node_offline_row:
  assumes "check_node e n st = Inr st'" and "\<not> checkNodeHealth e (domain n)"
    and "is_online n \<noteq> 0" and "\<not> evict e n" and "row_of (id' n) st = Some n0"
  shows "row_of (id' n) st' = Some (n0\<lparr>is_online := 0, down_since := Some (datetime_now e)\<rparr>)"
  using assms
  by (auto simp: check_node_def Let_def evict_def hoursDown_ge mark_offline_own
      split: option.splits if_splits)

lemma sweep_frame:
  "i \<notin> id' ` set ns \<Longrightarrow> row_of i (rows (sweep E ns st)) = row_of i st"
proof (induction ns arbitrary: st)
  case Nil
  show ?case by simp
next
  case (Cons n ns)
  show ?case
  proof (cases "check_node (E (id' n)) n st")
    case (Inl err)
    then show ?thesis by simp
  next
    case (Inr st')
    from Cons.prems have "i \<notin> id' ` set ns" and ne: "i \<noteq> id' n" by auto
    then have "row_of i (rows (sweep E ns st')) = row_of i st'" using Cons.IH by blast
    with Inr check_node_frame[OF Inr ne] show ?thesis by (simp add: Let_def)
  qed
qed

lemma sweep_row:
  assumes "distinct (map id' ns)" and "n \<in> set ns" and "raised (sweep E ns st) = None"
  shows "\<exists>s s'. row_of (id' n) s = row_of (id' n) st
            \<and> check_node (E (id' n)) n s = Inr s'
            \<and> row_of (id' n) (rows (sweep E ns st)) = row_of (id' n) s'"
  using assms
proof (induction ns arbitrary: st)
  case Nil
  then show ?case by simp
next
  case (Cons a ns)
  from Cons.prems(3) obtain st1 where st1: "check_node (E (id' a)) a st = Inr st1"
    by (cases "check_node (E (id' a)) a st") auto
  with Cons.prems(3) have nr: "raised (sweep E ns st1) = None" by (simp add: Let_def)
  show ?case
  proof (cases "n = a")
    case True
    from Cons.prems(1) have "id' a \<notin> id' ` set ns" by simp
    then have "row_of (id' a) (rows (sweep E ns st1)) = row_of (id' a) st1" by (rule sweep_frame)
    with st1 True show ?thesis by (auto simp: Let_def)
  next
    case False
    with Cons.prems(2) have in_ns: "n \<in> set ns" by simp
    then have "id' n \<in> id' ` set ns" by auto
    with Cons.prems(1) have ne: "id' n \<noteq> id' a" by auto
    from Cons.prems(1) have "distinct (map id' ns)" by simp
    from Cons.IH[OF this in_ns nr] obtain s s' where
      s: "row_of (id' n) s = row_of (id' n) st1" "check_node (E (id' n)) n s = Inr s'"
         "row_of (id' n) (rows (sweep E ns st1)) = row_of (id' n) s'" by blast
    from check_node_frame[OF st1 ne] s(1) have "row_of (id' n) s = row_of (id' n) st" by simp
    with s(2,3) st1 show ?thesis by (auto simp: Let_def)
  qed
qed

lemma row_of_member: "distinct (map id' st) \<Longrightarrow> m \<in> set st \<Longrightarrow> row_of (id' m) st = Some m"
  unfolding row_of_def by (induction st) (auto simp: image_iff)

lemma unbindable_coalesce: "\<not> bindable v \<Longrightarrow> \<not> bindable (coalesce v d)"
  by (cases v) (auto simp: coalesce_def)

lemma unbindable_or_else: "truthy v \<Longrightarrow> \<not> bindable v \<Longrightarrow> \<not> bindable (or_else v d)"
  by (simp add: or_else_def)

lemma check_node_raises:
  assumes "checkNodeHealth e (domain n)" and "unbindable_info (fetchNodeInfo e (domain n))"
  shows "check_node e n st = Inl BindError"
proof -
  let ?info = "fetchNodeInfo e (domain n)"
  let ?args = "[coalesce (js_get ?info ''track_count'') JNull,
           coalesce (js_get ?info ''user_count'') JNull,
           or_else (js_get ?info ''version'') JNull,
           (if \<not> nullish (js_get ?info ''p2p_enabled'')
            then JNum (if truthy (js_get ?info ''p2p_enabled'') then 1 else 0)
            else JNull),
           or_else (js_get ?info ''p2p_node_id'') JNull,
           or_else (js_get ?info ''name'') JNull,
           coalesce (js_get ?info ''open_registration'') JNull,
           JStr (id' n)]"
  have "\<not> list_all bindable ?args"
    using assms(2) unbindable_coalesce unbindable_or_else
    by (auto simp: unbindable_info_def)
  then have b: "bind_all ?args = Inl BindError"
    by (simp only: bind_all_def if_False)
  show ?thesis
    unfolding check_node_def Let_def refreshStmt_def b using assms(1) by simp
qed

lemma sweep_abort:
  assumes "raised (sweep E pre st) = None"
    and "check_node (E (id' n)) n (rows (sweep E pre st)) = Inl err"
  shows "sweep E (pre @ n # post) st =
           \<lparr>rows = rows (sweep E pre st), probed = map domain pre @ [domain n],
            raised = Some err\<rparr>"
  using assms
proof (induction pre arbitrary: st)
  case Nil
  then show ?case by simp
next
  case (Cons a pre)
  from Cons.prems(1) obtain st1 where st1: "check_node (E (id' a)) a st = Inr st1"
    by (cases "check_node (E (id' a)) a st") auto
  with Cons.prems have "raised (sweep E pre st1) = None"
    and "check_node (E (id' n)) n (rows (sweep E pre st1)) = Inl err"
    by (simp_all add: Let_def)
  then have "sweep E (pre @ n # post) st1 =
           \<lparr>rows = rows (sweep E pre st1), probed = map domain pre @ [domain n],
            raised = Some err\<rparr>" by (rule Cons.IH)
  with st1 show ?case by (simp add: Let_def)
qed

text \<open>
  The specification says that an exception raised while one record is processed does
  not keep the remaining records from being probed. The loop of \<open>runHealthChecks\<close> has
  no handler: when \<open>a.example\<close> reports \<open>open_registration: true\<close>, binding the boolean
  raises, the cycle ends there, and \<open>b.example\<close> is neither probed nor updated.
\<close>

theorem sweep_abort_counterexample:
  "probed (runHealthChecks world_flag [node_a, node_b]) = [''a.example'']
   \<and> raised (runHealthChecks world_flag [node_a, node_b]) = Some BindError
   \<and> rows (runHealthChecks world_flag [node_a, node_b]) = [node_a, node_b]"
  by (simp add: runHealthChecks_def check_node_def refreshStmt_def bind_all_def world_flag_def
      world_bool_def net_flag_def node_a_def node_b_def checkNodeHealth_def
      checkNodeHealth_trace_def fetchNodeInfo_def fetchNodeInfo_trace_def protocols_def
      startsWith_def Let_def or_else_def coalesce_def)

text \<open>
  Claim C3, as amended. A cycle probes the records in table order. In a cycle that no
  exception ends, every record is probed and updated, whatever the probes of the
  other records answered: a record of a table with unique ids that is found healthy
  is online afterwards, with \<open>down_since\<close> \<open>NULL\<close> and \<open>last_healthy\<close> and \<open>last_seen\<close> at
  the time it was processed, and a record that was online and is found unreachable
  is written offline with \<open>down_since\<close> at that time (unless it is evicted). No exception
  is raised when, for every record, the probe fails or every fetched field is missing
  or a value that the statement stores as it is. An exception raised while a record is
  processed is not caught: the cycle ends at that record with the table as the records
  before it left it, the records after it are not probed, and (ids being unique) they
  are in the table as they were.
\<close>

theorem sweep_continues:
  "prefix (probed (runHealthChecks E st)) (map domain st)
   \<and> (raised (runHealthChecks E st) = None \<longrightarrow> probed (runHealthChecks E st) = map domain st)
   \<and> (distinct (map id' st) \<and> raised (runHealthChecks E st) = None \<longrightarrow>
        (\<forall>n \<in> set st.
           (checkNodeHealth (E (id' n)) (domain n) \<longrightarrow>
              (\<exists>row. row_of (id' n) (rows (runHealthChecks E st)) = Some row
                 \<and> identity row = identity n \<and> is_online row = 1 \<and> down_since row = None
                 \<and> last_healthy row = datetime_now (E (id' n))
                 \<and> last_seen row = datetime_now (E (id' n))))
         \<and> (\<not> checkNodeHealth (E (id' n)) (domain n) \<and> is_online n \<noteq> 0
               \<and> \<not> evict (E (id' n)) n \<longrightarrow>
              row_of (id' n) (rows (runHealthChecks E st))
                = Some (n\<lparr>is_online := 0, down_since := Some (datetime_now (E (id' n)))\<rparr>))))
   \<and> ((\<forall>n \<in> set st. \<not> checkNodeHealth (E (id' n)) (domain n)
                \<or> storable_info (fetchNodeInfo (E (id' n)) (domain n)))
        \<longrightarrow> raised (runHealthChecks E st) = None)
   \<and> (\<forall>pre n post.
         st = pre @ n # post \<and> raised (sweep E pre st) = None
         \<and> check_node (E (id' n)) n (rows (sweep E pre st)) = Inl BindError
        \<longrightarrow> runHealthChecks E st =
              \<lparr>rows = rows (sweep E pre st), probed = map domain pre @ [domain n],
               raised = Some BindError\<rparr>
            \<and> (distinct (map id' st) \<longrightarrow>
                 (\<forall>m \<in> set post. row_of (id' m) (rows (runHealthChecks E st)) = Some m))
            \<and> (distinct (map domain st) \<longrightarrow>
                 (\<forall>m \<in> set post. domain m \<notin> set (probed (runHealthChecks E st)))))"
proof -
  let ?r = "runHealthChecks E st"
  have c1: "prefix (probed ?r) (map domain st)"
    unfolding runHealthChecks_def by (rule sweep_prefix)
  have c2: "raised ?r = None \<longrightarrow> probed ?r = map domain st"
    unfolding runHealthChecks_def using sweep_all_probed by blast
  have c3: "distinct (map id' st) \<and> raised ?r = None \<longrightarrow>
        (\<forall>n \<in> set st.
           (checkNodeHealth (E (id' n)) (domain n) \<longrightarrow>
              (\<exists>row. row_of (id' n) (rows ?r) = Some row
                 \<and> identity row = identity n \<and> is_online row = 1 \<and> down_since row = None
                 \<and> last_healthy row = datetime_now (E (id' n))
                 \<and> last_seen row = datetime_now (E (id' n))))
         \<and> (\<not> checkNodeHealth (E (id' n)) (domain n) \<and> is_online n \<noteq> 0
               \<and> \<not> evict (E (id' n)) n \<longrightarrow>
              row_of (id' n) (rows ?r)
                = Some (n\<lparr>is_online := 0, down_since := Some (datetime_now (E (id' n)))\<rparr>)))"
  proof (intro impI ballI, elim conjE)
    fix n
    assume d: "distinct (map id' st)" and nr: "raised ?r = None" and n: "n \<in> set st"
    from sweep_row[OF d n nr[unfolded runHealthChecks_def]] obtain s s' where
      s: "row_of (id' n) s = row_of (id' n) st" "check_node (E (id' n)) n s = Inr s'"
         "row_of (id' n) (rows ?r) = row_of (id' n) s'"
      unfolding runHealthChecks_def by blast
    from s(1) row_of_member[OF d n] have own: "row_of (id' n) s = Some n" by simp
    show "(checkNodeHealth (E (id' n)) (domain n) \<longrightarrow>
              (\<exists>row. row_of (id' n) (rows ?r) = Some row
                 \<and> identity row = identity n \<and> is_online row = 1 \<and> down_since row = None
                 \<and> last_healthy row = datetime_now (E (id' n))
                 \<and> last_seen row = datetime_now (E (id' n))))
         \<and> (\<not> checkNodeHealth (E (id' n)) (domain n) \<and> is_online n \<noteq> 0
               \<and> \<not> evict (E (id' n)) n \<longrightarrow>
              row_of (id' n) (rows ?r)
                = Some (n\<lparr>is_online := 0, down_since := Some (datetime_now (E (id' n)))\<rparr>))"
      using check_node_healthy_row[OF s(2) _ own] check_node_offline_row[OF s(2) _ _ _ own] s(3)
      by auto
  qed
  have c4: "(\<forall>n \<in> set st. \<not> checkNodeHealth (E (id' n)) (domain n)
                \<or> storable_info (fetchNodeInfo (E (id' n)) (domain n)))
        \<longrightarrow> raised ?r = None"
    unfolding runHealthChecks_def using sweep_no_raise by blast
  have c6: "\<forall>pre n post.
         st = pre @ n # post \<and> raised (sweep E pre st) = None
         \<and> check_node (E (id' n)) n (rows (sweep E pre st)) = Inl BindError
        \<longrightarrow> ?r =
              \<lparr>rows = rows (sweep E pre st), probed = map domain pre @ [domain n],
               raised = Some BindError\<rparr>
            \<and> (distinct (map id' st) \<longrightarrow>
                 (\<forall>m \<in> set post. row_of (id' m) (rows ?r) = Some m))
            \<and> (distinct (map domain st) \<longrightarrow>
                 (\<forall>m \<in> set post. domain m \<notin> set (probed ?r)))"
  proof (intro allI impI, elim conjE)
    fix pre n post
    assume st: "st = pre @ n # post" and nr: "raised (sweep E pre st) = None"
      and ex: "check_node (E (id' n)) n (rows (sweep E pre st)) = Inl BindError"
    have r: "?r = \<lparr>rows = rows (sweep E pre st), probed = map domain pre @ [domain n],
               raised = Some BindError\<rparr>"
      unfolding runHealthChecks_def
      using sweep_abort[OF nr ex, of post] st by simp
    have later: "row_of (id' m) (rows ?r) = Some m"
      if d: "distinct (map id' st)" and m: "m \<in> set post" for m
    proof -
      from d m st have "id' m \<notin> id' ` set pre" by auto
      then have "row_of (id' m) (rows (sweep E pre st)) = row_of (id' m) st" by (rule sweep_frame)
      moreover from m st have "m \<in> set st" by simp
      ultimately show ?thesis using row_of_member[OF d] r by simp
    qed
    have unprobed: "domain m \<notin> set (probed ?r)"
      if d: "distinct (map domain st)" and m: "m \<in> set post" for m
    proof -
      from m have "domain m \<in> domain ` set post" by (rule imageI)
      with d st r show ?thesis by auto
    qed
    from r later unprobed
    show "?r = \<lparr>rows = rows (sweep E pre st), probed = map domain pre @ [domain n],
               raised = Some BindError\<rparr>
            \<and> (distinct (map id' st) \<longrightarrow>
                 (\<forall>m \<in> set post. row_of (id' m) (rows ?r) = Some m))
            \<and> (distinct (map domain st) \<longrightarrow>
                 (\<forall>m \<in> set post. domain m \<notin> set (probed ?r)))"
      by blast
  qed
  from c1 c2 c3 c4 c6 show ?thesis by (intro conjI)
qed

theorem sweep_continues_witness:
  "raised (runHealthChecks during_a [node_b, node_a]) = None
   \<and> probed (runHealthChecks during_a [node_b, node_a]) = [''b.example'', ''a.example'']
   \<and> row_of ''J'' (rows (runHealthChecks during_a [node_b, node_a]))
        = Some (node_b\<lparr>is_online := 0, down_since := Some 5\<rparr>)
   \<and> runHealthChecks world_flag [node_a, node_b]
        = \<lparr>rows = [node_a, node_b], probed = [''a.example''], raised = Some BindError\<rparr>
   \<and> row_of ''J'' (rows (runHealthChecks world_flag [node_a, node_b])) = Some node_b"
proof -
  note good = sweep_continues[of during_a "[node_b, node_a]"]
  note g2 = good[THEN conjunct2, THEN conjunct1]
  note g3 = good[THEN conjunct2, THEN conjunct2, THEN conjunct1]
  note g4 = good[THEN conjunct2, THEN conjunct2, THEN conjunct2, THEN conjunct1]
  have hb: "\<not> checkNodeHealth (during_a (id' node_b)) (domain node_b)"
    by (simp add: node_b_def during_a_def world_a_def net_a_def checkNodeHealth_def
        checkNodeHealth_trace_def protocols_def startsWith_def)
  have wa: "storable_info (fetchNodeInfo (during_a (id' node_a)) (domain node_a))"
    by (simp add: node_a_def during_a_def world_a_def net_a_def fetchNodeInfo_def
        fetchNodeInfo_trace_def protocols_def startsWith_def storable_info_def
        text_field_def num_field_def)
  from hb wa have "\<forall>n \<in> set [node_b, node_a]. \<not> checkNodeHealth (during_a (id' n)) (domain n)
                \<or> storable_info (fetchNodeInfo (during_a (id' n)) (domain n))" by simp
  then have nr: "raised (runHealthChecks during_a [node_b, node_a]) = None"
    by (rule g4[THEN mp])
  then have pr: "probed (runHealthChecks during_a [node_b, node_a])
                      = map domain [node_b, node_a]" by (rule g2[THEN mp])
  have d: "distinct (map id' [node_b, node_a])" by (simp add: node_a_def node_b_def)
  have on: "is_online node_b \<noteq> 0" and ne: "\<not> evict (during_a (id' node_b)) node_b"
    by (simp_all add: node_b_def evict_def)
  have mem: "node_b \<in> set [node_b, node_a]" by simp
  have row: "row_of (id' node_b) (rows (runHealthChecks during_a [node_b, node_a]))
        = Some (node_b\<lparr>is_online := 0,
                        down_since := Some (datetime_now (during_a (id' node_b)))\<rparr>)"
    by (rule g3[THEN mp, OF conjI[OF d nr], THEN bspec, OF mem, THEN conjunct2, THEN mp,
          OF conjI[OF hb conjI[OF on ne]]])
  note bad = sweep_continues[of world_flag "[node_a, node_b]"]
  note b6 = bad[THEN conjunct2, THEN conjunct2, THEN conjunct2, THEN conjunct2]
  have ha: "checkNodeHealth (world_flag (id' node_a)) (domain node_a)"
    by (simp add: node_a_def world_flag_def world_bool_def net_flag_def checkNodeHealth_def
        checkNodeHealth_trace_def protocols_def startsWith_def)
  have ua: "unbindable_info (fetchNodeInfo (world_flag (id' node_a)) (domain node_a))"
    by (simp add: node_a_def world_flag_def world_bool_def net_flag_def fetchNodeInfo_def
        fetchNodeInfo_trace_def protocols_def startsWith_def unbindable_info_def)
  have ex: "check_node (world_flag (id' node_a)) node_a
          (rows (sweep world_flag [] [node_a, node_b])) = Inl BindError"
    by (rule check_node_raises[OF ha ua])
  have split: "[node_a, node_b] = [] @ node_a # [node_b]" by simp
  have nr0: "raised (sweep world_flag [] [node_a, node_b]) = None" by simp
  note ab = b6[rule_format, OF conjI[OF split conjI[OF nr0 ex]]]
  have d2: "distinct (map id' [node_a, node_b])" by (simp add: node_a_def node_b_def)
  have mem2: "node_b \<in> set [node_b]" by simp
  have later: "row_of (id' node_b) (rows (runHealthChecks world_flag [node_a, node_b]))
                          = Some node_b"
    by (rule ab[THEN conjunct2, THEN conjunct1, THEN mp, OF d2, THEN bspec, OF mem2])
  have a1: "runHealthChecks world_flag [node_a, node_b]
        = \<lparr>rows = [node_a, node_b], probed = [''a.example''], raised = Some BindError\<rparr>"
    using ab[THEN conjunct1] by (simp add: node_a_def)
  have i: "id' node_b = ''J''" by (simp add: node_b_def)
  have t: "datetime_now (during_a j) = 5" for j
    by (simp add: during_a_def world_a_def datetime_now_def)
  have dm: "map domain [node_b, node_a] = [''b.example'', ''a.example'']"
    by (simp add: node_a_def node_b_def)
  from nr pr[unfolded dm] row[unfolded i t] a1 later[unfolded i] show ?thesis by (intro conjI)
qed

section \<open>Token checks\<close>

text \<open>
  Claim C6. Take an announce request with a domain (a non-empty string) and a token
  that is present as the handler tests it (truthy) and is a string.
  If no record has the token, the answer is 401 and the table is unchanged. If the
  record with the token has another domain than the normalized domain of the request,
  the answer is 403 and the table is unchanged.
\<close>

theorem announce_rejects_bad_token:
  assumes "js_get body ''domain'' = JStr d" and "d \<noteq> []"
    and "js_get body ''token'' = JStr t" and "t \<noteq> []"
  shows "(find (\<lambda>n. token n = t) st = None
            \<longrightarrow> announce e body st = ((401, JObj [(''error'', JStr ''invalid token'')]), st))
       \<and> (\<forall>node. find (\<lambda>n. token n = t) st = Some node \<and> domain node \<noteq> cleanDomain d
            \<longrightarrow> announce e body st =
                  ((403, JObj [(''error'', JStr ''token does not match domain'')]), st))"
  using assms
  by (auto simp: announce_def Let_def heartbeat_def select_by_token_def bind_all_def)

theorem announce_rejects_bad_token_witness:
  "announce world_a unknown_token_a [node_a]
     = ((401, JObj [(''error'', JStr ''invalid token'')]), [node_a])
   \<and> announce world_a other_domain_a [node_a]
     = ((403, JObj [(''error'', JStr ''token does not match domain'')]), [node_a])"
  using announce_rejects_bad_token[of unknown_token_a "''a.example''" "''X''" "[node_a]" world_a]
    announce_rejects_bad_token[of other_domain_a "''b.example''" "''T''" "[node_a]" world_a]
  by (simp add: unknown_token_a_def other_domain_a_def node_a_def cleanDomain_def
      strip_scheme_def strip_slash_def)

section \<open>Registration\<close>

lemma text_field_chain:
  "text_field a \<Longrightarrow> text_field b \<Longrightarrow> \<exists>s. or_else (or_else a b) (JStr []) = JStr s"
  by (cases a; cases b) (auto simp: text_field_def or_else_def)

lemma num_field_default: "num_field v \<Longrightarrow> \<exists>n. coalesce v (JNum k) = JNum n"
  by (cases v) (auto simp: num_field_def coalesce_def)

lemma insertStmt_typed:
  assumes "a10 = JNull \<or> (\<exists>s. a10 = JStr s)"
    and "\<not> list_ex (\<lambda>m. id' m = v1 \<or> domain m = v2 \<or> token m = v11) st"
  shows "\<exists>row. insertStmt now (JStr v1) (JStr v2) (JStr v3) (JStr v4) (JStr v5)
            (JNum v6) (JNum v7) (JNum v8) (JNum v9) a10 (JStr v11) st = Inr (st @ [row])
          \<and> id' row = v1 \<and> domain row = v2 \<and> token row = v11
          \<and> is_online row = 1 \<and> down_since row = None
          \<and> first_seen row = now \<and> last_seen row = now \<and> last_healthy row = now"
  using assms by (auto simp: insertStmt_def bind_all_def)

lemma register_ok:
  assumes "cd \<notin> domain ` set st" and "checkNodeHealth e cd"
    and "generateId e \<notin> id' ` set st" and "generateToken e \<notin> token ` set st"
    and "text_field rn" and "text_field rd" and "text_field rv"
    and "storable_info (fetchNodeInfo e cd)"
  shows "\<exists>row. register e cd rn rd rv st =
            Inr ((201, JObj [(''status'', JStr ''registered''),
                    (''id'', JStr (generateId e)),
                    (''domain'', JStr cd),
                    (''token'', JStr (generateToken e)),
                    (''message'', JStr ''Save this token! You need it for future heartbeats and to remove your node.'')]),
                 st @ [row])
          \<and> id' row = generateId e \<and> domain row = cd \<and> token row = generateToken e
          \<and> is_online row = 1 \<and> down_since row = None
          \<and> first_seen row = datetime_now e \<and> last_seen row = datetime_now e
          \<and> last_healthy row = datetime_now e"
proof -
  define info where "info = fetchNodeInfo e cd"
  from assms(8) have wt: "text_field (js_get info ''name'')" "text_field (js_get info ''description'')"
    "text_field (js_get info ''version'')" "num_field (js_get info ''track_count'')"
    "num_field (js_get info ''user_count'')" "num_field (js_get info ''open_registration'')"
    "text_field (js_get info ''p2p_node_id'')"
    by (simp_all add: storable_info_def info_def)
  obtain s3 where s3: "or_else (or_else rn (js_get info ''name'')) (JStr []) = JStr s3"
    using text_field_chain[OF assms(5) wt(1)] by blast
  obtain s4 where s4: "or_else (or_else rd (js_get info ''description'')) (JStr []) = JStr s4"
    using text_field_chain[OF assms(6) wt(2)] by blast
  obtain s5 where s5: "or_else (or_else rv (js_get info ''version'')) (JStr []) = JStr s5"
    using text_field_chain[OF assms(7) wt(3)] by blast
  obtain n6 where n6: "coalesce (js_get info ''track_count'') (JNum 0) = JNum n6"
    using num_field_default[OF wt(4)] by blast
  obtain n7 where n7: "coalesce (js_get info ''user_count'') (JNum 0) = JNum n7"
    using num_field_default[OF wt(5)] by blast
  obtain n8 where n8: "coalesce (js_get info ''open_registration'') (JNum 1) = JNum n8"
    using num_field_default[OF wt(6)] by blast
  have a10: "or_else (js_get info ''p2p_node_id'') JNull = JNull
             \<or> (\<exists>s. or_else (js_get info ''p2p_node_id'') JNull = JStr s)"
    by (rule text_field_null[OF wt(7)])
  have "id' m \<noteq> generateId e \<and> domain m \<noteq> cd \<and> token m \<noteq> generateToken e"
    if "m \<in> set st" for m
    using that assms(1,3,4) by (metis imageI)
  then have uniq:
    "\<not> list_ex (\<lambda>m. id' m = generateId e \<or> domain m = cd \<or> token m = generateToken e) st"
    by (auto simp: list_ex_iff)
  have none: "select_by_domain cd st = None"
    using assms(1) by (auto simp: select_by_domain_def find_None_iff)
  from insertStmt_typed[OF a10 uniq, of "datetime_now e" s3 s4 s5 n6 n7 n8
      "if truthy (js_get info ''p2p_enabled'') then 1 else 0"]
  obtain row where row: "insertStmt (datetime_now e) (JStr (generateId e)) (JStr cd) (JStr s3)
        (JStr s4) (JStr s5) (JNum n6) (JNum n7) (JNum n8)
        (JNum (if truthy (js_get info ''p2p_enabled'') then 1 else 0))
        (or_else (js_get info ''p2p_node_id'') JNull) (JStr (generateToken e)) st
        = Inr (st @ [row])"
    and props: "id' row = generateId e" "domain row = cd" "token row = generateToken e"
      "is_online row = 1" "down_since row = None" "first_seen row = datetime_now e"
      "last_seen row = datetime_now e" "last_healthy row = datetime_now e"
    by blast
  have "register e cd rn rd rv st =
            Inr ((201, JObj [(''status'', JStr ''registered''),
                    (''id'', JStr (generateId e)),
                    (''domain'', JStr cd),
                    (''token'', JStr (generateToken e)),
                    (''message'', JStr ''Save this token! You need it for future heartbeats and to remove your node.'')]),
                 st @ [row])"
    unfolding register_def none using assms(2)
    by (simp add: Let_def info_def[symmetric] s3 s4 s5 n6 n7 n8 row)
  with props show ?thesis by blast
qed

lemma register_conflict:
  assumes "cd \<in> domain ` set st"
  shows "register e cd rn rd rv st =
     Inr ((409, JObj [(''error'', JStr ''domain already registered''),
            (''hint'', JStr ''Include the token from your initial registration to update.'')]), st)"
proof -
  from assms obtain n where "find (\<lambda>n. domain n = cd) st = Some n"
    by (cases "find (\<lambda>n. domain n = cd) st") (auto simp: find_None_iff)
  then show ?thesis by (simp add: register_def select_by_domain_def)
qed

text \<open>
  Registration where the \<open>INSERT\<close> can store what it is given. Take an announce
  request without a token for a domain that has no record and that the health probe
  finds reachable. Let \<open>generateId\<close> and \<open>generateToken\<close> return values that no record
  has, and let the request and the fetched info hold values that are stored as they
  are. Then the request appends exactly one record, with the new id and token and the
  normalized domain, and answers 201 with that token. The same request again, in any
  environment, answers 409 (a body without the token) and leaves the table unchanged;
  \<open>GET /api/nodes/:domain\<close> does not show the token.
\<close>

lemma registration_once:
  assumes "js_get body ''domain'' = JStr d" and "d \<noteq> []"
    and "\<not> truthy (js_get body ''token'')"
    and "cleanDomain d \<notin> domain ` set st"
    and "checkNodeHealth e (cleanDomain d)"
    and "generateId e \<notin> id' ` set st" and "generateToken e \<notin> token ` set st"
    and "text_field (js_get body ''name'')" and "text_field (js_get body ''description'')"
    and "text_field (js_get body ''version'')"
    and "storable_info (fetchNodeInfo e (cleanDomain d))"
  shows "\<exists>row. announce e body st =
            ((201, JObj [(''status'', JStr ''registered''),
                    (''id'', JStr (generateId e)),
                    (''domain'', JStr (cleanDomain d)),
                    (''token'', JStr (generateToken e)),
                    (''message'', JStr ''Save this token! You need it for future heartbeats and to remove your node.'')]),
             st @ [row])
          \<and> id' row = generateId e \<and> domain row = cleanDomain d
          \<and> token row = generateToken e
          \<and> (\<forall>e'. announce e' body (st @ [row]) =
                ((409, JObj [(''error'', JStr ''domain already registered''),
                   (''hint'', JStr ''Include the token from your initial registration to update.'')]),
                 st @ [row]))
          \<and> fst (get_node d (st @ [row])) = 200
          \<and> js_get (snd (get_node d (st @ [row]))) ''token'' = JUndefined"
proof -
  from register_ok[OF assms(4-11)] obtain row where
    reg: "register e (cleanDomain d) (js_get body ''name'') (js_get body ''description'')
            (js_get body ''version'') st =
            Inr ((201, JObj [(''status'', JStr ''registered''),
                    (''id'', JStr (generateId e)),
                    (''domain'', JStr (cleanDomain d)),
                    (''token'', JStr (generateToken e)),
                    (''message'', JStr ''Save this token! You need it for future heartbeats and to remove your node.'')]),
                 st @ [row])"
    and props: "id' row = generateId e" "domain row = cleanDomain d" "token row = generateToken e"
    by blast
  have first: "announce e body st =
            ((201, JObj [(''status'', JStr ''registered''),
                    (''id'', JStr (generateId e)),
                    (''domain'', JStr (cleanDomain d)),
                    (''token'', JStr (generateToken e)),
                    (''message'', JStr ''Save this token! You need it for future heartbeats and to remove your node.'')]),
             st @ [row])"
    using assms(1-3) reg by (simp add: announce_def Let_def)
  have mem: "cleanDomain d \<in> domain ` set (st @ [row])" using props(2) by auto
  have second: "announce e' body (st @ [row]) =
                ((409, JObj [(''error'', JStr ''domain already registered''),
                   (''hint'', JStr ''Include the token from your initial registration to update.'')]),
                 st @ [row])" for e'
    using assms(1-3) register_conflict[OF mem] by (simp add: announce_def Let_def)
  from mem obtain n where n: "find (\<lambda>n. domain n = cleanDomain d) (st @ [row]) = Some n"
    by (cases "find (\<lambda>n. domain n = cleanDomain d) (st @ [row])") (auto simp: find_None_iff)
  have got: "fst (get_node d (st @ [row])) = 200
          \<and> js_get (snd (get_node d (st @ [row]))) ''token'' = JUndefined"
    using n by (simp add: get_node_def select_by_domain_def)
  from first second got props show ?thesis by blast
qed

lemma registration_once_witness:
  "\<exists>row. announce world_a register_a [] =
            ((201, JObj [(''status'', JStr ''registered''),
                    (''id'', JStr (generateId world_a)),
                    (''domain'', JStr (cleanDomain ''a.example'')),
                    (''token'', JStr (generateToken world_a)),
                    (''message'', JStr ''Save this token! You need it for future heartbeats and to remove your node.'')]),
             [] @ [row])
          \<and> id' row = generateId world_a \<and> domain row = cleanDomain ''a.example''
          \<and> token row = generateToken world_a
          \<and> (\<forall>e'. announce e' register_a ([] @ [row]) =
                ((409, JObj [(''error'', JStr ''domain already registered''),
                   (''hint'', JStr ''Include the token from your initial registration to update.'')]),
                 [] @ [row]))
          \<and> fst (get_node ''a.example'' ([] @ [row])) = 200
          \<and> js_get (snd (get_node ''a.example'' ([] @ [row]))) ''token'' = JUndefined"
  by (rule registration_once)
     (simp_all add: register_a_def world_a_def net_a_def text_field_def num_field_def
        storable_info_def cleanDomain_def strip_scheme_def strip_slash_def
        checkNodeHealth_def checkNodeHealth_trace_def fetchNodeInfo_def fetchNodeInfo_trace_def
        protocols_def startsWith_def)

text \<open>
  The \<open>INSERT\<close> binds \<open>info?.open_registration ?? 1\<close> as it is, where the next
  argument is converted (\<open>info?.p2p_enabled ? 1 : 0\<close>). A node that reports
  \<open>open_registration\<close> as a boolean or an object cannot register.
\<close>

lemma register_unbindable_flag:
  assumes "cd \<notin> domain ` set st" and "checkNodeHealth e cd"
    and "\<not> bindable (js_get (fetchNodeInfo e cd) ''open_registration'')"
  shows "register e cd rn rd rv st = Inl BindError"
proof -
  let ?info = "fetchNodeInfo e cd"
  let ?args = "[JStr (generateId e), JStr cd,
      or_else (or_else rn (js_get ?info ''name'')) (JStr []),
      or_else (or_else rd (js_get ?info ''description'')) (JStr []),
      or_else (or_else rv (js_get ?info ''version'')) (JStr []),
      coalesce (js_get ?info ''track_count'') (JNum 0),
      coalesce (js_get ?info ''user_count'') (JNum 0),
      coalesce (js_get ?info ''open_registration'') (JNum 1),
      JNum (if truthy (js_get ?info ''p2p_enabled'') then 1 else 0),
      or_else (js_get ?info ''p2p_node_id'') JNull,
      JStr (generateToken e)]"
  have none: "select_by_domain cd st = None"
    using assms(1) by (auto simp: select_by_domain_def find_None_iff)
  have "\<not> list_all bindable ?args"
    using unbindable_coalesce[OF assms(3)] by simp
  then have b: "bind_all ?args = Inl BindError"
    by (simp only: bind_all_def if_False)
  show ?thesis
    unfolding register_def none Let_def insertStmt_def b using assms(2) by simp
qed

text \<open>
  Claim C5 says that an announce without a token, for a domain that has no record and
  whose probe reports it reachable, inserts one record and returns its token. The
  program does not do so for \<open>a.example\<close> when it is reachable and its info reports
  \<open>open_registration: true\<close> (a boolean, as the specification has the field): the
  \<open>INSERT\<close> raises, the answer is 500 and the table stays empty.
\<close>

theorem registration_rejects_boolean_flag:
  "select_by_domain (cleanDomain ''a.example'') [] = None
   \<and> checkNodeHealth world_bool (cleanDomain ''a.example'')
   \<and> js_get (fetchNodeInfo world_bool (cleanDomain ''a.example'')) ''open_registration'' = JBool True
   \<and> announce world_bool register_a [] =
       ((500, JObj [(''error'', JStr ''internal server error'')]), [])"
  by (simp add: announce_def register_def select_by_domain_def insertStmt_def bind_all_def
      or_else_def coalesce_def cleanDomain_def strip_scheme_def strip_slash_def
      checkNodeHealth_def checkNodeHealth_trace_def fetchNodeInfo_def fetchNodeInfo_trace_def
      protocols_def startsWith_def Let_def world_bool_def net_flag_def register_a_def)

section \<open>What a heartbeat writes\<close>

lemmas ev = announce_def register_def heartbeat_def select_by_token_def select_by_domain_def
  updateStmt_def insertStmt_def bind_all_def or_else_def coalesce_def datetime_now_def
  cleanDomain_def strip_scheme_def strip_slash_def checkNodeHealth_def checkNodeHealth_trace_def
  fetchNodeInfo_def fetchNodeInfo_trace_def protocols_def startsWith_def Let_def

lemma reg: "announce world_a register_a [] =
  ((201, JObj [(''status'', JStr ''registered''), (''id'', JStr ''I''),
     (''domain'', JStr ''a.example''), (''token'', JStr ''T''),
     (''message'', JStr ''Save this token! You need it for future heartbeats and to remove your node.'')]),
   [node_a])"
  by (simp add: ev world_a_def net_a_def register_a_def node_a_def)

text \<open>
  The specification's scenario: \<open>a.example\<close> registers while reporting 10 tracks, then
  sends a heartbeat with \<open>track_count: 20\<close> in the request. The handler reads only
  \<open>domain\<close>, \<open>name\<close>, \<open>description\<close>, \<open>version\<close> and \<open>token\<close> from a request: the
  heartbeat answers 200 and the record still shows 10 tracks.
\<close>

theorem precedence_counterexample:
  "fst (fst (announce world_a heartbeat_a (snd (announce world_a register_a [])))) = 200
   \<and> js_get (snd (get_node ''a.example''
        (snd (announce world_a heartbeat_a (snd (announce world_a register_a [])))))) ''track_count''
      = JNum 10"
  by (simp add: reg) (simp add: ev world_a_def net_a_def heartbeat_a_def node_a_def get_node_def)

lemma text_col_Inr: "text_col a = Inr s \<longleftrightarrow> a = JStr s"
  by (cases a) auto

lemma int_col_Inr: "int_col a = Inr n \<longleftrightarrow> a = JNum n"
  by (cases a) auto

lemma text_null_col_or: "text_null_col (or_else a JNull) = Inr v \<Longrightarrow> js_text_opt v = or_else a JNull"
  by (cases a) (auto simp: or_else_def split: if_splits)

lemma or_chain3: "or_else (or_else (or_else a b) c) dflt = first_truthy [a, b, c] dflt"
  by (simp add: or_else_def)

lemma or_chain2: "or_else (or_else a b) dflt = first_truthy [a, b] dflt"
  by (simp add: or_else_def)

lemma co_chain2: "coalesce (coalesce a b) dflt = first_present [a, b] dflt"
  by (simp add: coalesce_def)

text \<open>
  Claim C1, as amended. After a heartbeat that answers 200, the record with the token
  holds: for \<open>name\<close>, \<open>description\<close> and \<open>version\<close>, the value of the request if truthy,
  else the fetched value if truthy, else the stored value if truthy, else the empty
  string; for \<open>track_count\<close>, \<open>user_count\<close> and \<open>open_registration\<close>, the fetched
  value if it is not \<open>null\<close> or \<open>undefined\<close>, else the stored value (the request is
  not read for them); for \<open>p2p_node_id\<close>, the fetched value if truthy, else the stored
  value, else \<open>NULL\<close>. The record is online, with \<open>last_seen\<close> and \<open>last_healthy\<close>
  set to the time of the request. (\<open>p2p_enabled\<close> is left out of this statement.)
\<close>

theorem heartbeat_precedence:
  assumes "js_get body ''domain'' = JStr d" and "d \<noteq> []"
    and "js_get body ''token'' = JStr t" and "t \<noteq> []"
    and "find (\<lambda>n. token n = t) st = Some node"
    and "fst (fst (announce e body st)) = 200"
  shows "\<exists>row. find (\<lambda>n. token n = t) (snd (announce e body st)) = Some row
    \<and> JStr (name row) = first_truthy [js_get body ''name'',
          js_get (fetchNodeInfo e (cleanDomain d)) ''name'', JStr (name node)] (JStr [])
    \<and> JStr (description row) = first_truthy [js_get body ''description'',
          js_get (fetchNodeInfo e (cleanDomain d)) ''description'', JStr (description node)] (JStr [])
    \<and> JStr (version row) = first_truthy [js_get body ''version'',
          js_get (fetchNodeInfo e (cleanDomain d)) ''version'', JStr (version node)] (JStr [])
    \<and> JNum (track_count row) = first_present
          [js_get (fetchNodeInfo e (cleanDomain d)) ''track_count'', JNum (track_count node)] (JNum 0)
    \<and> JNum (user_count row) = first_present
          [js_get (fetchNodeInfo e (cleanDomain d)) ''user_count'', JNum (user_count node)] (JNum 0)
    \<and> JNum (open_registration row) = first_present
          [js_get (fetchNodeInfo e (cleanDomain d)) ''open_registration'',
           JNum (open_registration node)] (JNum 1)
    \<and> js_text_opt (p2p_node_id row) = first_truthy
          [js_get (fetchNodeInfo e (cleanDomain d)) ''p2p_node_id'',
           js_text_opt (p2p_node_id node)] JNull
    \<and> is_online row = 1 \<and> down_since row = None
    \<and> last_seen row = datetime_now e \<and> last_healthy row = datetime_now e"
proof -
  define info where "info = fetchNodeInfo e (cleanDomain d)"
  define a1 where "a1 = or_else (or_else (or_else (js_get body ''name'') (js_get info ''name''))
                      (JStr (name node))) (JStr [])"
  define a2 where "a2 = or_else (or_else (or_else (js_get body ''description'')
                      (js_get info ''description'')) (JStr (description node))) (JStr [])"
  define a3 where "a3 = or_else (or_else (or_else (js_get body ''version'') (js_get info ''version''))
                      (JStr (version node))) (JStr [])"
  define a4 where "a4 = coalesce (coalesce (js_get info ''track_count'')
                      (JNum (track_count node))) (JNum 0)"
  define a5 where "a5 = coalesce (coalesce (js_get info ''user_count'')
                      (JNum (user_count node))) (JNum 0)"
  define a6 where "a6 = coalesce (coalesce (js_get info ''open_registration'')
                      (JNum (open_registration node))) (JNum 1)"
  define a7 where "a7 = JNum (if truthy (js_get info ''p2p_enabled'') then 1 else 0)"
  define a8 where "a8 = or_else (or_else (js_get info ''p2p_node_id'')
                      (js_text_opt (p2p_node_id node))) JNull"
  have sel: "select_by_token (JStr t) st = Inr (Some node)"
    using assms(5) by (simp add: select_by_token_def bind_all_def)
  have hb: "heartbeat e (cleanDomain d) (js_get body ''name'') (js_get body ''description'')
              (js_get body ''version'') (JStr t) st =
            (if domain node \<noteq> cleanDomain d
             then Inr ((403, JObj [(''error'', JStr ''token does not match domain'')]), st)
             else and_then (updateStmt (datetime_now e) a1 a2 a3 a4 a5 a6 a7 a8 (JStr t) st)
                    (\<lambda>st'. Inr ((200, JObj [(''status'', JStr ''updated''),
                                          (''id'', JStr (id' node)),
                                          (''domain'', JStr (cleanDomain d))]), st')))"
    by (simp add: heartbeat_def sel Let_def info_def a1_def a2_def a3_def a4_def a5_def a6_def
        a7_def a8_def)
  have ann: "announce e body st =
        (case heartbeat e (cleanDomain d) (js_get body ''name'') (js_get body ''description'')
              (js_get body ''version'') (JStr t) st of
           Inr res \<Rightarrow> res
         | Inl Unsupported \<Rightarrow> (out_of_model, st)
         | Inl err \<Rightarrow> ((500, JObj [(''error'', JStr ''internal server error'')]), st))"
    using assms(1-4) by (simp add: announce_def Let_def)
  from assms(6) obtain st' where
    upd: "updateStmt (datetime_now e) a1 a2 a3 a4 a5 a6 a7 a8 (JStr t) st = Inr st'"
    and st': "snd (announce e body st) = st'"
    unfolding ann hb
    by (cases "updateStmt (datetime_now e) a1 a2 a3 a4 a5 a6 a7 a8 (JStr t) st")
       (auto simp: out_of_model_def split: if_splits exn.splits)
  from upd obtain v1 v2 v3 v4 v5 v6 v7 v8 where
    v: "text_col a1 = Inr v1" "text_col a2 = Inr v2" "text_col a3 = Inr v3"
       "int_col a4 = Inr v4" "int_col a5 = Inr v5" "int_col a6 = Inr v6"
       "int_col a7 = Inr v7" "text_null_col a8 = Inr v8"
    and m: "st' = map (\<lambda>m. if Some (token m) = Some t
                       then m\<lparr>name := v1, description := v2, version := v3,
                              track_count := v4, user_count := v5,
                              open_registration := v6, p2p_enabled := v7,
                              p2p_node_id := v8, last_seen := datetime_now e,
                              last_healthy := datetime_now e, is_online := 1,
                              down_since := None\<rparr>
                       else m) st"
    by (auto simp: updateStmt_def and_then_Inr simp del: map_eq_conv)
  define row where "row = node\<lparr>name := v1, description := v2, version := v3,
                              track_count := v4, user_count := v5,
                              open_registration := v6, p2p_enabled := v7,
                              p2p_node_id := v8, last_seen := datetime_now e,
                              last_healthy := datetime_now e, is_online := 1,
                              down_since := None\<rparr>"
  from assms(5) have tn: "token node = t" by (auto dest: find_Some_iff[THEN iffD1])
  have "find (\<lambda>n. token n = t) st' = Some ((\<lambda>m. if Some (token m) = Some t
                       then m\<lparr>name := v1, description := v2, version := v3,
                              track_count := v4, user_count := v5,
                              open_registration := v6, p2p_enabled := v7,
                              p2p_node_id := v8, last_seen := datetime_now e,
                              last_healthy := datetime_now e, is_online := 1,
                              down_since := None\<rparr>
                       else m) node)"
    unfolding m by (rule find_map_same[OF assms(5)]) simp
  then have f: "find (\<lambda>n. token n = t) (snd (announce e body st)) = Some row"
    by (simp add: st' row_def tn)
  from v have eqs: "a1 = JStr (name row)" "a2 = JStr (description row)" "a3 = JStr (version row)"
    "a4 = JNum (track_count row)" "a5 = JNum (user_count row)"
    "a6 = JNum (open_registration row)" "js_text_opt (p2p_node_id row) = a8"
    by (simp_all add: text_col_Inr int_col_Inr row_def a8_def text_null_col_or)
  have rest: "is_online row = 1" "down_since row = None" "last_seen row = datetime_now e"
    "last_healthy row = datetime_now e"
    by (simp_all add: row_def)
  have n1: "JStr (name row) = first_truthy [js_get body ''name'', js_get info ''name'',
          JStr (name node)] (JStr [])"
    using eqs(1) unfolding a1_def or_chain3 by (rule sym)
  have n2: "JStr (description row) = first_truthy [js_get body ''description'',
          js_get info ''description'', JStr (description node)] (JStr [])"
    using eqs(2) unfolding a2_def or_chain3 by (rule sym)
  have n3: "JStr (version row) = first_truthy [js_get body ''version'',
          js_get info ''version'', JStr (version node)] (JStr [])"
    using eqs(3) unfolding a3_def or_chain3 by (rule sym)
  have n4: "JNum (track_count row) = first_present
          [js_get info ''track_count'', JNum (track_count node)] (JNum 0)"
    using eqs(4) unfolding a4_def co_chain2 by (rule sym)
  have n5: "JNum (user_count row) = first_present
          [js_get info ''user_count'', JNum (user_count node)] (JNum 0)"
    using eqs(5) unfolding a5_def co_chain2 by (rule sym)
  have n6: "JNum (open_registration row) = first_present
          [js_get info ''open_registration'', JNum (open_registration node)] (JNum 1)"
    using eqs(6) unfolding a6_def co_chain2 by (rule sym)
  have n8: "js_text_opt (p2p_node_id row) = first_truthy
          [js_get info ''p2p_node_id'', js_text_opt (p2p_node_id node)] JNull"
    using eqs(7) unfolding a8_def or_chain2 .
  from f n1 n2 n3 n4 n5 n6 n8 rest show ?thesis unfolding info_def by blast
qed

theorem heartbeat_precedence_witness:
  "\<exists>row. find (\<lambda>n. token n = ''T'') (snd (announce world_a heartbeat_a [node_a])) = Some row
     \<and> track_count row = 10 \<and> name row = [] \<and> is_online row = 1"
  using heartbeat_precedence[of heartbeat_a "''a.example''" "''T''" "[node_a]" node_a world_a]
  by (simp add: ev world_a_def net_a_def heartbeat_a_def node_a_def)

section \<open>Statistics\<close>

text \<open>
  Claim C10. On an empty table \<open>GET /api/stats\<close> answers \<open>total_nodes\<close> 0 and \<open>null\<close>
  for \<open>online_nodes\<close>, \<open>total_tracks\<close> and \<open>total_users\<close>: the three sums range over no
  row, and the handler sends them as they are. On every other table they are numbers.
\<close>

theorem stats_of_empty_store:
  "get_stats [] =
     (200, JObj [(''total_nodes'', JNum 0), (''online_nodes'', JNull),
                 (''total_tracks'', JNull), (''total_users'', JNull)])
   \<and> (js_get (snd (get_stats st)) ''online_nodes'' = JNull \<longleftrightarrow> st = [])
   \<and> (js_get (snd (get_stats st)) ''total_tracks'' = JNull \<longleftrightarrow> st = [])
   \<and> (js_get (snd (get_stats st)) ''total_users'' = JNull \<longleftrightarrow> st = [])"
  by (simp add: get_stats_def sql_sum_def)

end
